theory Spec2Isabelle
  imports Complex_Main "HOL-Library.Log_Nat"
begin

section \<open>Strings as the analyzers use them\<close>

text \<open>
  Source text and paths are JavaScript strings of well-formed Unicode text (what
  \<open>fs.readFile(p, 'utf-8')\<close> and the directory listings return). A string is modelled
  by its UTF-8 encoding, a \<open>string\<close> of bytes. UTF-8 is self-synchronizing: the
  encoding of a character never occurs inside or across the encodings of other
  characters, so substring search, prefix and suffix tests and the split at line feeds
  on the bytes agree with the operations of the source on UTF-16 code units.
\<close>

definition newline :: char where
  "newline = CHR 0x0A"

text \<open>\<open>s.startsWith(p)\<close>\<close>

fun startsWith :: "string \<Rightarrow> string \<Rightarrow> bool" where
  "startsWith s [] = True"
| "startsWith [] (p # ps) = False"
| "startsWith (c # cs) (p # ps) = (c = p \<and> startsWith cs ps)"

text \<open>\<open>s.includes(k)\<close>: \<open>k\<close> starts at some position of \<open>s\<close>.\<close>

fun str_includes :: "string \<Rightarrow> string \<Rightarrow> bool" where
  "str_includes [] k = startsWith [] k"
| "str_includes (c # cs) k = (startsWith (c # cs) k \<or> str_includes cs k)"

text \<open>
  \<open>content.split('\n')\<close>: the pieces between line feeds; the result is never empty
  (\<open>"".split('\n')\<close> is \<open>[""]\<close>, and a trailing line feed gives a last empty piece).
\<close>

fun split_lines :: "string \<Rightarrow> string list" where
  "split_lines [] = [[]]"
| "split_lines (c # cs) =
     (if c = newline then [] # split_lines cs
      else (case split_lines cs of
              [] \<Rightarrow> [[c]]
            | l # ls \<Rightarrow> (c # l) # ls))"

text \<open>
  The white space of JavaScript, which \<open>trim\<close> strips and \<open>\s\<close> matches: TAB, LF,
  VT, FF, CR, SPACE, U+00A0, U+1680, U+2000 to U+200A, U+2028, U+2029, U+202F, U+205F,
  U+3000 and U+FEFF, each by its UTF-8 encoding.
\<close>

definition whiteSpace :: "string list" where
  "whiteSpace =
     [[CHR 0x09], [CHR 0x0A], [CHR 0x0B], [CHR 0x0C], [CHR 0x0D], [CHR 0x20],
      [CHR 0xC2, CHR 0xA0],
      [CHR 0xE1, CHR 0x9A, CHR 0x80],
      [CHR 0xE2, CHR 0x80, CHR 0x80], [CHR 0xE2, CHR 0x80, CHR 0x81],
      [CHR 0xE2, CHR 0x80, CHR 0x82], [CHR 0xE2, CHR 0x80, CHR 0x83],
      [CHR 0xE2, CHR 0x80, CHR 0x84], [CHR 0xE2, CHR 0x80, CHR 0x85],
      [CHR 0xE2, CHR 0x80, CHR 0x86], [CHR 0xE2, CHR 0x80, CHR 0x87],
      [CHR 0xE2, CHR 0x80, CHR 0x88], [CHR 0xE2, CHR 0x80, CHR 0x89],
      [CHR 0xE2, CHR 0x80, CHR 0x8A],
      [CHR 0xE2, CHR 0x80, CHR 0xA8], [CHR 0xE2, CHR 0x80, CHR 0xA9],
      [CHR 0xE2, CHR 0x80, CHR 0xAF],
      [CHR 0xE2, CHR 0x81, CHR 0x9F],
      [CHR 0xE3, CHR 0x80, CHR 0x80],
      [CHR 0xEF, CHR 0xBB, CHR 0xBF]]"

text \<open>
  The length of the token that a string starts with, 0 when it starts with none, and
  the removal of all tokens at the start. A string ends with a white space character
  exactly when its reversal starts with the reversed encoding, since every encoding
  begins with a byte that begins a character.
\<close>

definition tokenLength :: "string list \<Rightarrow> string \<Rightarrow> nat" where
  "tokenLength tokens s =
     (case find (startsWith s) tokens of None \<Rightarrow> 0 | Some t \<Rightarrow> length t)"

lemma startsWith_length: "startsWith s p \<Longrightarrow> length p \<le> length s"
  by (induction s p rule: startsWith.induct) auto

lemma tokenLength_le: "tokenLength tokens s \<le> length s"
proof (cases "find (startsWith s) tokens")
  case None
  then show ?thesis by (simp add: tokenLength_def)
next
  case (Some t)
  then have "startsWith s t" by (auto simp add: find_Some_iff)
  with Some show ?thesis by (simp add: tokenLength_def startsWith_length)
qed

function dropTokens :: "string list \<Rightarrow> string \<Rightarrow> string" where
  "dropTokens tokens s =
     (if 0 < tokenLength tokens s then dropTokens tokens (drop (tokenLength tokens s) s)
      else s)"
  by pat_completeness auto
termination
proof (relation "measure (\<lambda>(tokens, s). length s)", goal_cases)
  case 1
  then show ?case by simp
next
  case (2 tokens s)
  with tokenLength_le [of tokens s] show ?case by simp
qed

declare dropTokens.simps [simp del]

text \<open>\<open>s.trim()\<close> strips the white space at both ends.\<close>

definition trim :: "string \<Rightarrow> string" where
  "trim s = rev (dropTokens (map rev whiteSpace) (rev (dropTokens whiteSpace s)))"

text \<open>\<open>s.endsWith(p)\<close>, and the removal of a suffix that a \<open>$\<close>-anchored regex matched.\<close>

definition endsWith :: "string \<Rightarrow> string \<Rightarrow> bool" where
  "endsWith s p = startsWith (rev s) (rev p)"

definition dropSuffix :: "string \<Rightarrow> string \<Rightarrow> string" where
  "dropSuffix s p = take (length s - length p) s"

text \<open>An optional string argument is used when it is truthy: given and not empty.\<close>

fun truthy :: "string option \<Rightarrow> bool" where
  "truthy None = False"
| "truthy (Some s) = (s \<noteq> [])"

section \<open>Errors\<close>

text \<open>
  Every \<open>throw new Error(...)\<close> of the source is one constructor, named after its
  message; \<open>TypeError\<close> is the runtime's own error for a method call on \<open>undefined\<close>.
\<close>

datatype error =
    ProjectPathDoesNotExist
  | FunctionNotFound
  | FailedToReadFile
  | FailedToFindFiles
  | FailedToBuildFileTree
  | TypeError

section \<open>Cyclomatic complexity (CodeAnalyzer.calculateComplexity)\<close>

datatype level = Low | Medium | High | VeryHigh

record CodeComplexity =
  cfile :: string
  func :: "string option"
  complexity :: nat
  level :: level
  recommendations :: "string list"

definition decisionKeywords :: "string list" where
  "decisionKeywords =
     [''if'', ''else'', ''while'', ''for'', ''switch'', ''case'', ''catch'',
      ''&&'', ''||'', ''?'', ''??'']"

text \<open>
  The inner loop \<open>for (const keyword of decisionKeywords) if (line.includes(keyword))
  complexity++\<close>, from the counter \<open>c\<close>.
\<close>

definition countKeywords :: "string \<Rightarrow> nat \<Rightarrow> nat" where
  "countKeywords line c =
     foldl (\<lambda>c keyword. if str_includes line keyword then c + 1 else c) c decisionKeywords"

text \<open>The outer loop \<open>for (let i = startLine; i < endLine; i++)\<close>.\<close>

function countLoop :: "string list \<Rightarrow> nat \<Rightarrow> nat \<Rightarrow> nat \<Rightarrow> nat" where
  "countLoop lines i endLine c =
     (if i < endLine then countLoop lines (i + 1) endLine (countKeywords (lines ! i) c)
      else c)"
  by pat_completeness auto
termination
  by (relation "measure (\<lambda>(lines, i, endLine, c). endLine - i)") auto

text \<open>The level and the recommendations, written out identically in both modes.\<close>

definition complexityLevel :: "nat \<Rightarrow> level" where
  "complexityLevel c =
     (if c \<le> 5 then Low else if c \<le> 10 then Medium else if c \<le> 20 then High
      else VeryHigh)"

definition complexityRecommendations :: "nat \<Rightarrow> string list" where
  "complexityRecommendations c =
     (if c > 10
      then [''Consider breaking this function into smaller functions'',
            ''Extract complex conditions into named functions'']
      else [])
     @ (if c > 20 then [''This function is too complex and should be refactored'']
        else [])"

subsection \<open>Structured mode: the range of a function found by the parser\<close>

text \<open>
  \<open>extractFunctions\<close> walks a tree-sitter tree, an object of an external library; its
  result, the list of \<open>{name, line}\<close> with 1-based lines, is taken as given.
\<close>

record FunctionInfo =
  fname :: string
  line :: nat

definition isDeclarationStart :: "string \<Rightarrow> bool" where
  "isDeclarationStart l =
     (startsWith (trim l) ''function'' \<or> startsWith (trim l) ''const''
      \<or> startsWith (trim l) ''class'')"

text \<open>
  \<open>for (let i = startLine + 1; i < lines.length; i++) if (...) { endLine = i; break; }\<close>
  with \<open>endLine\<close> initially \<open>lines.length\<close>.
\<close>

function findStructuredEnd :: "string list \<Rightarrow> nat \<Rightarrow> nat" where
  "findStructuredEnd lines i =
     (if i < length lines
      then (if isDeclarationStart (lines ! i) then i else findStructuredEnd lines (i + 1))
      else length lines)"
  by pat_completeness auto
termination
  by (relation "measure (\<lambda>(lines, i). length lines - i)") auto

text \<open>
  The scanned range \<open>(startLine, endLine)\<close>; \<open>startLine = targetFunction.line - 1\<close>
  (the case \<open>line = 0\<close>, where the source reads \<open>lines[-1]\<close>, is an error of
  \<open>calculateComplexity\<close> below and never reaches this function).
\<close>

definition structuredRange :: "string list \<Rightarrow> FunctionInfo option \<Rightarrow> nat \<times> nat" where
  "structuredRange lines targetFunction =
     (case targetFunction of
        None \<Rightarrow> (0, length lines)
      | Some t \<Rightarrow> (line t - 1, findStructuredEnd lines (line t - 1 + 1)))"

subsection \<open>Fallback mode: the range of a function found by substring search\<close>

definition mentionsFunction :: "string \<Rightarrow> string \<Rightarrow> bool" where
  "mentionsFunction l functionName =
     (str_includes l (''function '' @ functionName)
      \<or> str_includes l (functionName @ ''('')
      \<or> str_includes l (''const '' @ functionName @ '' =''))"

text \<open>
  \<open>for (let j = i + 1; j < lines.length; j++)
     if (lines[j].trim() === '}' && j > i + 3) { endLine = j; break; }\<close>
\<close>

function findFallbackEnd :: "string list \<Rightarrow> nat \<Rightarrow> nat \<Rightarrow> nat" where
  "findFallbackEnd lines i j =
     (if j < length lines
      then (if trim (lines ! j) = ''}'' \<and> j > i + 3 then j
            else findFallbackEnd lines i (j + 1))
      else length lines)"
  by pat_completeness auto
termination
  by (relation "measure (\<lambda>(lines, i, j). length lines - j)") auto

text \<open>
  The outer search \<open>for (let i = 0; i < lines.length; i++)\<close>, which stops at the first
  line mentioning the function; when no line does, \<open>startLine\<close> and \<open>endLine\<close> keep
  their initial values \<open>0\<close> and \<open>lines.length\<close>.
\<close>

function findFallbackRange :: "string list \<Rightarrow> string \<Rightarrow> nat \<Rightarrow> nat \<times> nat" where
  "findFallbackRange lines functionName i =
     (if i < length lines
      then (if mentionsFunction (lines ! i) functionName
            then (i, findFallbackEnd lines i (i + 1))
            else findFallbackRange lines functionName (i + 1))
      else (0, length lines))"
  by pat_completeness auto
termination
  by (relation "measure (\<lambda>(lines, functionName, i). length lines - i)") auto

definition fallbackRange :: "string list \<Rightarrow> string option \<Rightarrow> nat \<times> nat" where
  "fallbackRange lines functionName =
     (if truthy functionName then findFallbackRange lines (the functionName) 0
      else (0, length lines))"

subsection \<open>The two modes\<close>

definition complexityResult ::
  "string \<Rightarrow> string option \<Rightarrow> string list \<Rightarrow> nat \<times> nat \<Rightarrow> CodeComplexity" where
  "complexityResult filePath functionName lines rng =
     (let c = countLoop lines (fst rng) (snd rng) 1
      in \<lparr>cfile = filePath, func = functionName, complexity = c,
           level = complexityLevel c, recommendations = complexityRecommendations c\<rparr>)"

text \<open>
  \<open>content\<close> is what \<open>readFileContent(filePath)\<close> returns: \<open>None\<close> when the read
  throws.
\<close>

definition calculateComplexityFallback ::
  "string \<Rightarrow> string option \<Rightarrow> string option \<Rightarrow> error + CodeComplexity" where
  "calculateComplexityFallback filePath functionName content =
     (case content of
        None \<Rightarrow> Inl FailedToReadFile
      | Some text \<Rightarrow>
          (let lines = split_lines text
           in Inr (complexityResult filePath functionName lines
                     (fallbackRange lines functionName))))"

text \<open>
  \<open>parsed\<close> is \<open>None\<close> when \<open>parseFile\<close> returns \<open>null\<close> (no parser library, no
  parser for the language, or a failed parse), and otherwise the functions that
  \<open>extractFunctions\<close> finds in the tree.
\<close>

definition calculateComplexity ::
  "string \<Rightarrow> string option \<Rightarrow> FunctionInfo list option \<Rightarrow> string option
     \<Rightarrow> error + CodeComplexity" where
  "calculateComplexity filePath functionName parsed content =
     (case parsed of
        None \<Rightarrow> calculateComplexityFallback filePath functionName content
      | Some functions \<Rightarrow>
          (let targetFunction =
                 (if truthy functionName
                  then find (\<lambda>f. fname f = the functionName) functions
                  else None)
           in if truthy functionName \<and> targetFunction = None then Inl FunctionNotFound
              else (case content of
                      None \<Rightarrow> Inl FailedToReadFile
                    | Some text \<Rightarrow>
                        (let lines = split_lines text
                         in if (case targetFunction of None \<Rightarrow> False | Some t \<Rightarrow> line t = 0)
                            then Inl TypeError
                            else Inr (complexityResult filePath functionName lines
                                        (structuredRange lines targetFunction))))))"

declare countLoop.simps [simp del] findStructuredEnd.simps [simp del]
  findFallbackEnd.simps [simp del] findFallbackRange.simps [simp del]

subsection \<open>What the score counts\<close>

text \<open>
  The number of decision tokens that occur in a line at least once: the contribution of
  one line to the score.
\<close>

definition lineHits :: "string \<Rightarrow> nat" where
  "lineHits l = length (filter (str_includes l) decisionKeywords)"

text \<open>The lines that a call scans: the slice \<open>[startLine, endLine)\<close> of its mode.\<close>

definition scannedLines ::
  "string option \<Rightarrow> FunctionInfo list option \<Rightarrow> string \<Rightarrow> string list" where
  "scannedLines functionName parsed text =
     (let lines = split_lines text;
          rng = (case parsed of
                   None \<Rightarrow> fallbackRange lines functionName
                 | Some functions \<Rightarrow>
                     structuredRange lines
                       (if truthy functionName
                        then find (\<lambda>f. fname f = the functionName) functions
                        else None))
      in take (snd rng - fst rng) (drop (fst rng) lines))"

text \<open>
  The reading "one increment per occurrence": the number of positions of a line at which
  a token starts, summed over the tokens and the scanned lines, plus the base 1.
\<close>

fun count_occurrences :: "string \<Rightarrow> string \<Rightarrow> nat" where
  "count_occurrences [] k = 0"
| "count_occurrences (c # cs) k =
     (if startsWith (c # cs) k then 1 else 0) + count_occurrences cs k"

definition occurrenceScore :: "string list \<Rightarrow> nat" where
  "occurrenceScore scanned =
     1 + (\<Sum>l\<leftarrow>scanned. \<Sum>k\<leftarrow>decisionKeywords. count_occurrences l k)"

text \<open>
  A file in which exactly two lines contain \<open>if\<close>, exactly one line contains \<open>&&\<close>,
  and no line contains any other decision token.
\<close>

definition twoIfLinesOneAndLine :: "string list \<Rightarrow> bool" where
  "twoIfLinesOneAndLine ls =
     (length (filter (\<lambda>l. str_includes l ''if'') ls) = 2
      \<and> length (filter (\<lambda>l. str_includes l ''&&'') ls) = 1
      \<and> list_all (\<lambda>k. k = ''if'' \<or> k = ''&&'' \<or> list_all (\<lambda>l. \<not> str_includes l k) ls)
            decisionKeywords)"

lemma countKeywords_eq: "countKeywords l c = c + lineHits l"
proof -
  have "foldl (\<lambda>c k. if P k then c + 1 else c) c ks = c + length (filter P ks)"
    for P :: "string \<Rightarrow> bool" and ks and c :: nat
    by (induction ks arbitrary: c) auto
  then show ?thesis by (simp add: countKeywords_def lineHits_def)
qed

lemma countLoop_eq:
  "e \<le> length lines \<Longrightarrow>
   countLoop lines i e c = c + (\<Sum>l\<leftarrow>take (e - i) (drop i lines). lineHits l)"
proof (induction lines i e c rule: countLoop.induct)
  case (1 lines i endLine c)
  show ?case
  proof (cases "i < endLine")
    case True
    then have il: "i < length lines" using "1.prems" by simp
    have "take (endLine - i) (drop i lines)
          = lines ! i # take (endLine - (i + 1)) (drop (i + 1) lines)"
      using True il by (metis Cons_nth_drop_Suc Suc_diff_Suc Suc_eq_plus1 take_Suc_Cons)
    with True "1.IH" "1.prems" show ?thesis
      by (subst countLoop.simps) (simp add: countKeywords_eq)
  next
    case False
    then show ?thesis by (subst countLoop.simps) simp
  qed
qed

lemma countLoop_ge: "c \<le> countLoop lines i e c"
proof (induction lines i e c rule: countLoop.induct)
  case (1 lines i endLine c)
  show ?case
  proof (cases "i < endLine")
    case True
    with "1.IH" have "countKeywords (lines ! i) c
        \<le> countLoop lines (i + 1) endLine (countKeywords (lines ! i) c)"
      by simp
    then show ?thesis
      using True by (subst countLoop.simps) (simp add: countKeywords_eq)
  next
    case False
    then show ?thesis by (subst countLoop.simps) simp
  qed
qed

lemma findStructuredEnd_le: "findStructuredEnd lines i \<le> length lines"
  by (induction lines i rule: findStructuredEnd.induct)
     (subst findStructuredEnd.simps, simp)

lemma findFallbackEnd_le: "findFallbackEnd lines i j \<le> length lines"
  by (induction lines i j rule: findFallbackEnd.induct)
     (subst findFallbackEnd.simps, simp)

lemma findFallbackRange_le: "snd (findFallbackRange lines functionName i) \<le> length lines"
  by (induction lines functionName i rule: findFallbackRange.induct)
     (subst findFallbackRange.simps, simp add: findFallbackEnd_le)

lemma structuredRange_le: "snd (structuredRange lines t) \<le> length lines"
  by (simp add: structuredRange_def findStructuredEnd_le split: option.splits)

lemma fallbackRange_le: "snd (fallbackRange lines functionName) \<le> length lines"
  by (simp add: fallbackRange_def findFallbackRange_le)

lemma complexityResult_complexity:
  "snd rng \<le> length lines \<Longrightarrow>
   complexity (complexityResult filePath functionName lines rng)
     = 1 + (\<Sum>l\<leftarrow>take (snd rng - fst rng) (drop (fst rng) lines). lineHits l)"
  by (simp add: complexityResult_def Let_def countLoop_eq)

lemma complexityResult_shape:
  "1 \<le> complexity (complexityResult filePath functionName lines rng)
   \<and> level (complexityResult filePath functionName lines rng)
       = complexityLevel (complexity (complexityResult filePath functionName lines rng))
   \<and> recommendations (complexityResult filePath functionName lines rng)
       = complexityRecommendations
           (complexity (complexityResult filePath functionName lines rng))"
  by (simp add: complexityResult_def Let_def countLoop_ge)

lemma calculateComplexity_Inr_shape:
  assumes "calculateComplexity filePath functionName parsed content = Inr r"
  shows "1 \<le> complexity r \<and> level r = complexityLevel (complexity r)
         \<and> recommendations r = complexityRecommendations (complexity r)"
proof -
  have "\<exists>lines s e. r = complexityResult filePath functionName lines (s, e)"
  proof (cases parsed)
    case None
    with assms show ?thesis
      by (cases content; cases "fallbackRange (split_lines (the content)) functionName")
         (auto simp add: calculateComplexity_def calculateComplexityFallback_def Let_def)
  next
    case (Some fs)
    define t where "t = (if truthy functionName
                         then find (\<lambda>f. fname f = the functionName) fs else None)"
    from assms Some show ?thesis
      by (cases content; cases "structuredRange (split_lines (the content)) t")
         (auto simp add: calculateComplexity_def Let_def t_def split: if_splits)
  qed
  then obtain lines s e where "r = complexityResult filePath functionName lines (s, e)"
    by blast
  then show ?thesis
    using complexityResult_shape [of filePath functionName lines "(s, e)"] by simp
qed

lemma calculateComplexity_Inr_complexity:
  assumes "calculateComplexity filePath functionName parsed (Some text) = Inr r"
  shows "complexity r = 1 + (\<Sum>l\<leftarrow>scannedLines functionName parsed text. lineHits l)"
proof (cases parsed)
  case None
  with assms have "r = complexityResult filePath functionName (split_lines text)
                         (fallbackRange (split_lines text) functionName)"
    by (simp add: calculateComplexity_def calculateComplexityFallback_def Let_def)
  then show ?thesis
    using None
    by (simp add: complexityResult_complexity fallbackRange_le scannedLines_def Let_def)
next
  case (Some fs)
  define t where "t = (if truthy functionName
                       then find (\<lambda>f. fname f = the functionName) fs else None)"
  from assms Some have "r = complexityResult filePath functionName (split_lines text)
                              (structuredRange (split_lines text) t)"
    by (auto simp add: calculateComplexity_def Let_def t_def split: if_splits)
  then show ?thesis
    using Some
    by (simp add: complexityResult_complexity structuredRange_le scannedLines_def Let_def
        t_def)
qed

lemma scannedLines_whole_file:
  "\<not> truthy functionName \<Longrightarrow> scannedLines functionName parsed text = split_lines text"
  by (simp add: scannedLines_def Let_def fallbackRange_def structuredRange_def
      split: option.splits)

lemma sum_hits_swap:
  "(\<Sum>l\<leftarrow>ls. length (filter (P l) ks)) = (\<Sum>k\<leftarrow>ks. length (filter (\<lambda>l. P l k) ls))"
proof (induction ls)
  case Nil
  then show ?case by (induction ks) auto
next
  case (Cons l ls)
  have a: "length (filter (P l) ks) = (\<Sum>k\<leftarrow>ks. if P l k then 1 else 0)"
    by (induction ks) auto
  have b: "length (filter (\<lambda>l. P l k) (l # ls))
           = (if P l k then 1 else 0) + length (filter (\<lambda>l. P l k) ls)" for k
    by simp
  show ?case
    unfolding b sum_list_addf using a Cons by simp
qed

lemma twoIfLinesOneAndLine_hits:
  assumes "twoIfLinesOneAndLine ls"
  shows "(\<Sum>l\<leftarrow>ls. lineHits l) = 3"
proof -
  have none: "length (filter (\<lambda>l. str_includes l k) ls) = 0"
    if "k \<in> set decisionKeywords" "k \<noteq> ''if''" "k \<noteq> ''&&''" for k
  proof -
    from assms that have "list_all (\<lambda>l. \<not> str_includes l k) ls"
      unfolding twoIfLinesOneAndLine_def list_all_iff by blast
    then show ?thesis by (simp add: list_all_iff filter_empty_conv)
  qed
  have "(\<Sum>l\<leftarrow>ls. lineHits l)
        = (\<Sum>k\<leftarrow>decisionKeywords. length (filter (\<lambda>l. str_includes l k) ls))"
    unfolding lineHits_def by (rule sum_hits_swap)
  also have "\<dots> = 3"
    using assms none by (simp add: decisionKeywords_def twoIfLinesOneAndLine_def)
  finally show ?thesis .
qed


subsection \<open>Claims about calculateComplexity\<close>

text \<open>
  C1 (as the code has it). The score of a call that returns is 1 plus, for every scanned
  line, the number of decision tokens that the line contains: a token counts once per
  line, however often it occurs there, and a line with several different tokens counts
  once for each. In particular a whole-file call on a file in which exactly two lines
  contain \<open>if\<close>, exactly one line contains \<open>&&\<close> and no other decision token occurs
  returns score 4 and level \<open>low\<close>.
\<close>

theorem calculateComplexity_counts_tokens_per_line:
  assumes "calculateComplexity filePath functionName parsed (Some text) = Inr r"
  shows "complexity r = 1 + (\<Sum>l\<leftarrow>scannedLines functionName parsed text. lineHits l)
         \<and> (\<not> truthy functionName \<and> twoIfLinesOneAndLine (split_lines text)
              \<longrightarrow> complexity r = 4 \<and> level r = Low)"
proof -
  have score: "complexity r = 1 + (\<Sum>l\<leftarrow>scannedLines functionName parsed text. lineHits l)"
    using assms by (rule calculateComplexity_Inr_complexity)
  have "complexity r = 4 \<and> level r = Low"
    if whole: "\<not> truthy functionName" and two: "twoIfLinesOneAndLine (split_lines text)"
  proof -
    from score whole two have "complexity r = 4"
      by (simp add: scannedLines_whole_file twoIfLinesOneAndLine_hits)
    moreover have "level r = complexityLevel (complexity r)"
      using assms calculateComplexity_Inr_shape by blast
    ultimately show ?thesis by (simp add: complexityLevel_def)
  qed
  with score show ?thesis by blast
qed

theorem calculateComplexity_counts_tokens_per_line_witness:
  "calculateComplexity ''a.js'' None None
     (Some (''if (a) {'' @ [newline] @ ''  if (b && c) { run(); }'' @ [newline] @ ''}''))
   = Inr \<lparr>cfile = ''a.js'', func = None, complexity = 4, level = Low,
           recommendations = []\<rparr>
   \<and> (\<Sum>l\<leftarrow>scannedLines None None
            (''if (a) {'' @ [newline] @ ''  if (b && c) { run(); }'' @ [newline] @ ''}'').
          lineHits l) = 3
   \<and> twoIfLinesOneAndLine
       (split_lines (''if (a) {'' @ [newline] @ ''  if (b && c) { run(); }'' @ [newline] @ ''}''))"
proof -
  let ?text = "''if (a) {'' @ [newline] @ ''  if (b && c) { run(); }'' @ [newline] @ ''}''"
  let ?r = "\<lparr>cfile = ''a.js'', func = None, complexity = 4, level = Low,
             recommendations = []\<rparr>"
  have run: "calculateComplexity ''a.js'' None None (Some ?text) = Inr ?r"
    by code_simp
  have two: "twoIfLinesOneAndLine (split_lines ?text)"
    by code_simp
  from calculateComplexity_counts_tokens_per_line [OF run] run two show ?thesis
    by simp
qed

text \<open>
  C1 as stated fails: on the one-line file below \<open>if\<close> occurs twice and \<open>&&\<close> once,
  and no other decision token occurs, so the count per occurrence is 4; the code returns 3,
  since both \<open>if\<close> stand on the same line.
\<close>

theorem calculateComplexity_per_occurrence_counterexample:
  "calculateComplexity ''a.js'' None None (Some ''if (a) { if (b && c) { run(); } }'')
   = Inr \<lparr>cfile = ''a.js'', func = None, complexity = 3, level = Low,
           recommendations = []\<rparr>
   \<and> scannedLines None None ''if (a) { if (b && c) { run(); } }''
       = [''if (a) { if (b && c) { run(); } }'']
   \<and> count_occurrences ''if (a) { if (b && c) { run(); } }'' ''if'' = 2
   \<and> count_occurrences ''if (a) { if (b && c) { run(); } }'' ''&&'' = 1
   \<and> occurrenceScore [''if (a) { if (b && c) { run(); } }''] = 4"
  by code_simp

text \<open>
  C9. Every returned \<open>CodeComplexity\<close> has a score of at least 1, the level given by
  the thresholds 5, 10 and 20, and recommendations only when the score exceeds 10.
\<close>

theorem calculateComplexity_level_thresholds:
  assumes "calculateComplexity filePath functionName parsed content = Inr r"
  shows "1 \<le> complexity r
         \<and> (level r = Low \<longleftrightarrow> complexity r \<le> 5)
         \<and> (level r = Medium \<longleftrightarrow> 5 < complexity r \<and> complexity r \<le> 10)
         \<and> (level r = High \<longleftrightarrow> 10 < complexity r \<and> complexity r \<le> 20)
         \<and> (level r = VeryHigh \<longleftrightarrow> 20 < complexity r)
         \<and> (recommendations r \<noteq> [] \<longrightarrow> 10 < complexity r)"
proof -
  from assms have shape: "1 \<le> complexity r" "level r = complexityLevel (complexity r)"
    "recommendations r = complexityRecommendations (complexity r)"
    using calculateComplexity_Inr_shape by blast+
  have "recommendations r \<noteq> [] \<longrightarrow> 10 < complexity r"
    unfolding shape(3) complexityRecommendations_def by (simp split: if_splits)
  moreover have "level r = Low \<longleftrightarrow> complexity r \<le> 5"
    unfolding shape(2) complexityLevel_def by simp
  moreover have "level r = Medium \<longleftrightarrow> 5 < complexity r \<and> complexity r \<le> 10"
    unfolding shape(2) complexityLevel_def by simp
  moreover have "level r = High \<longleftrightarrow> 10 < complexity r \<and> complexity r \<le> 20"
    unfolding shape(2) complexityLevel_def by simp
  moreover have "level r = VeryHigh \<longleftrightarrow> 20 < complexity r"
    unfolding shape(2) complexityLevel_def by simp
  ultimately show ?thesis using shape(1) by blast
qed

theorem calculateComplexity_level_thresholds_witness:
  "calculateComplexity ''m.js'' (Some ''pick'') (Some [\<lparr>fname = ''pick'', line = 1\<rparr>])
     (Some (''function pick(a, b) {'' @ [newline]
            @ ''  if (a && b || a) { for (;;) { while (a) { a--; } } }'' @ [newline]
            @ ''  else { switch (b) { case 1: try { b(); } catch (e) { } } }'' @ [newline]
            @ ''  return a ? b : a ?? b;'' @ [newline] @ ''}''))
   = Inr \<lparr>cfile = ''m.js'', func = Some ''pick'', complexity = 12, level = High,
           recommendations = [''Consider breaking this function into smaller functions'',
                              ''Extract complex conditions into named functions'']\<rparr>
   \<and> (1::nat) \<le> 12 \<and> (10::nat) < 12 \<and> (12::nat) \<le> 20"
proof -
  let ?text = "''function pick(a, b) {'' @ [newline]
            @ ''  if (a && b || a) { for (;;) { while (a) { a--; } } }'' @ [newline]
            @ ''  else { switch (b) { case 1: try { b(); } catch (e) { } } }'' @ [newline]
            @ ''  return a ? b : a ?? b;'' @ [newline] @ ''}''"
  let ?r = "\<lparr>cfile = ''m.js'', func = Some ''pick'', complexity = 12, level = High,
           recommendations = [''Consider breaking this function into smaller functions'',
                              ''Extract complex conditions into named functions'']\<rparr>"
  have run: "calculateComplexity ''m.js'' (Some ''pick'')
               (Some [\<lparr>fname = ''pick'', line = 1\<rparr>]) (Some ?text) = Inr ?r"
    by code_simp
  from calculateComplexity_level_thresholds [OF run] run show ?thesis
    by simp
qed

lemma structured_mode_unknown_function_fails:
  assumes "truthy functionName" and "\<forall>f\<in>set functions. fname f \<noteq> the functionName"
  shows "calculateComplexity filePath functionName (Some functions) content
         = Inl FunctionNotFound"
proof -
  from assms(2) have "find (\<lambda>f. fname f = the functionName) functions = None"
    by (simp add: find_None_iff)
  with assms(1) show ?thesis by (simp add: calculateComplexity_def Let_def)
qed

lemma fallback_mode_returns_whenever_readable:
  "\<exists>r. calculateComplexity filePath functionName None (Some text) = Inr r"
  by (simp add: calculateComplexity_def calculateComplexityFallback_def Let_def)

text \<open>
  C5. In structured mode a supplied function name that the parser did not find makes the
  call fail. In fallback mode it does not: the call below, for a name that occurs nowhere
  in the file, returns the score of the whole file under the name \<open>missing\<close>.
\<close>

theorem fallback_mode_unknown_function_returns:
  "calculateComplexity ''app.js'' (Some ''missing'') None
     (Some (''function load(x) {'' @ [newline] @ ''  if (x) { return 1; }'' @ [newline]
            @ ''  return 0;'' @ [newline] @ ''}''))
   = Inr \<lparr>cfile = ''app.js'', func = Some ''missing'', complexity = 2, level = Low,
           recommendations = []\<rparr>
   \<and> calculateComplexity ''app.js'' (Some ''missing'')
       (Some [\<lparr>fname = ''load'', line = 1\<rparr>])
       (Some (''function load(x) {'' @ [newline] @ ''  if (x) { return 1; }'' @ [newline]
            @ ''  return 0;'' @ [newline] @ ''}''))
     = Inl FunctionNotFound"
  by code_simp

section \<open>JavaScript numbers\<close>

text \<open>
  A finite JavaScript number is an IEEE 754 double, a rational number; it is modelled by
  the \<open>rat\<close> it denotes. An arithmetic operation returns the exact result rounded to
  the nearest number with 53 significant bits, ties to the even one. The exponent range
  is not modelled: the operations below are applied to numbers between \<open>2\<^sup>-\<^sup>5\<^sup>3\<close> and
  \<open>2\<^sup>5\<^sup>3\<close>, far from overflow and from subnormal numbers.
\<close>

definition roundHalfEven :: "rat \<Rightarrow> int" where
  "roundHalfEven x =
     (let f = \<lfloor>x\<rfloor>; d = x - of_int f
      in if d < 1 / 2 then f else if 1 / 2 < d then f + 1 else if even f then f else f + 1)"

text \<open>The exponent \<open>e\<close> of a positive number: \<open>2\<^sup>e \<le> x < 2\<^sup>e\<^sup>+\<^sup>1\<close>.\<close>

definition binaryExponent :: "rat \<Rightarrow> int" where
  "binaryExponent x =
     (let e = bitlen (fst (quotient_of x)) - bitlen (snd (quotient_of x))
      in if 2 powi e \<le> x then e else e - 1)"

definition roundDouble :: "rat \<Rightarrow> rat" where
  "roundDouble x =
     (if x = 0 then 0
      else (let ulp = 2 powi (binaryExponent \<bar>x\<bar> - 52)
            in of_int (roundHalfEven (x / ulp)) * ulp))"

text \<open>
  The operators \<open>/\<close>, \<open>*\<close> and \<open>+\<close> on numbers. The code divides by a count
  only after the test that the count is positive.
\<close>

definition fdiv :: "rat \<Rightarrow> rat \<Rightarrow> rat" where
  "fdiv x y = roundDouble (x / y)"

definition fmul :: "rat \<Rightarrow> rat \<Rightarrow> rat" where
  "fmul x y = roundDouble (x * y)"

definition fadd :: "rat \<Rightarrow> rat \<Rightarrow> rat" where
  "fadd x y = roundDouble (x + y)"

lemma roundHalfEven_error: "\<bar>of_int (roundHalfEven x) - x\<bar> \<le> 1 / 2"
proof -
  define f where "f = \<lfloor>x\<rfloor>"
  define d where "d = x - of_int f"
  have d: "0 \<le> d" "d < 1"
    unfolding d_def f_def by linarith+
  have x: "x = of_int f + d" by (simp add: d_def)
  have r: "roundHalfEven x
           = (if d < 1 / 2 then f else if 1 / 2 < d then f + 1
              else if even f then f else f + 1)"
    by (simp add: roundHalfEven_def Let_def f_def d_def)
  have diff: "of_int f - x = - d" "of_int (f + 1) - x = 1 - d"
    by (simp_all add: x)
  consider "d < 1 / 2" | "1 / 2 < d" | "d = 1 / 2" by linarith
  then show ?thesis
  proof cases
    case 1
    then have "roundHalfEven x = f" by (simp add: r)
    with diff(1) d 1 show ?thesis by simp
  next
    case 2
    then have "roundHalfEven x = f + 1" by (simp add: r)
    with diff(2) d 2 show ?thesis by simp
  next
    case 3
    then have "roundHalfEven x = f \<or> roundHalfEven x = f + 1" by (simp add: r)
    with diff 3 show ?thesis by auto
  qed
qed

lemma binaryExponent_bounds:
  assumes "0 < x"
  shows "2 powi (binaryExponent x) \<le> x" and "x < 2 powi (binaryExponent x + 1)"
proof -
  obtain p q where pq: "quotient_of x = (p, q)" by (cases "quotient_of x")
  then have q: "0 < q" and x: "x = of_int p / of_int q"
    by (auto dest: quotient_of_denom_pos quotient_of_div)
  with assms have p: "0 < p"
    by (simp add: zero_less_divide_iff)
  define a b where "a = bitlen p" and "b = bitlen q"
  from bitlen_bounds [OF p] have pa: "2 ^ nat (a - 1) \<le> p" "p < 2 ^ nat a"
    by (simp_all add: a_def)
  from bitlen_bounds [OF q] have qb: "2 ^ nat (b - 1) \<le> q" "q < 2 ^ nat b"
    by (simp_all add: b_def)
  from p pa(2) have a1: "1 \<le> a" by (cases "a \<le> 0") auto
  from q qb(2) have b1: "1 \<le> b" by (cases "b \<le> 0") auto
  have pl: "(2::rat) powi (a - 1) \<le> of_int p"
  proof -
    from pa(1) have "(of_int (2 ^ nat (a - 1)) :: rat) \<le> of_int p"
      by (simp only: of_int_le_iff)
    with a1 show ?thesis by (simp add: power_int_def)
  qed
  have pu: "of_int p < (2::rat) powi a"
  proof -
    from pa(2) have "(of_int p :: rat) < of_int (2 ^ nat a)"
      by (simp only: of_int_less_iff)
    with a1 show ?thesis by (simp add: power_int_def)
  qed
  have ql: "(2::rat) powi (b - 1) \<le> of_int q"
  proof -
    from qb(1) have "(of_int (2 ^ nat (b - 1)) :: rat) \<le> of_int q"
      by (simp only: of_int_le_iff)
    with b1 show ?thesis by (simp add: power_int_def)
  qed
  have qu: "of_int q < (2::rat) powi b"
  proof -
    from qb(2) have "(of_int q :: rat) < of_int (2 ^ nat b)"
      by (simp only: of_int_less_iff)
    with b1 show ?thesis by (simp add: power_int_def)
  qed
  have qpos: "(0::rat) < of_int q" using q by simp
  have low: "(2::rat) powi (a - b - 1) < x"
  proof -
    have "a - b - 1 = (a - 1) - b" by simp
    then have "(2::rat) powi (a - b - 1) = 2 powi (a - 1) / 2 powi b"
      by (simp only: power_int_diff [of "2::rat" "a - 1" b, simplified])
    also have "\<dots> \<le> of_int p / 2 powi b"
      using pl by (simp add: divide_right_mono)
    also have "\<dots> < of_int p / of_int q"
      using qu qpos p by (simp add: divide_strict_left_mono)
    finally show ?thesis by (simp add: x)
  qed
  have high: "x < (2::rat) powi (a - b + 1)"
  proof -
    have "x = of_int p / of_int q" by (rule x)
    also have "\<dots> < 2 powi a / of_int q"
      using pu qpos by (simp add: divide_strict_right_mono)
    also have "\<dots> \<le> 2 powi a / 2 powi (b - 1)"
      using ql qpos by (intro divide_left_mono) simp_all
    also have "\<dots> = 2 powi (a - (b - 1))"
      by (simp only: power_int_diff [of "2::rat" a "b - 1", simplified])
    also have "a - (b - 1) = a - b + 1" by simp
    finally show ?thesis .
  qed
  have e: "binaryExponent x = (if 2 powi (a - b) \<le> x then a - b else a - b - 1)"
    by (simp add: binaryExponent_def Let_def pq a_def b_def)
  show "2 powi (binaryExponent x) \<le> x"
    using low by (auto simp add: e)
  show "x < 2 powi (binaryExponent x + 1)"
    using high by (auto simp add: e not_le)
qed

lemma roundDouble_error: "\<bar>roundDouble x - x\<bar> \<le> \<bar>x\<bar> / 2 ^ 53"
proof (cases "x = 0")
  case True
  then show ?thesis by (simp add: roundDouble_def)
next
  case False
  define e where "e = binaryExponent \<bar>x\<bar>"
  define ulp :: rat where "ulp = 2 powi (e - 52)"
  have ulp: "0 < ulp" by (simp add: ulp_def)
  from False have "2 powi e \<le> \<bar>x\<bar>"
    unfolding e_def by (intro binaryExponent_bounds(1)) simp
  moreover have "ulp / 2 = 2 powi e / 2 ^ 53"
    by (simp add: ulp_def power_int_diff)
  ultimately have half: "ulp / 2 \<le> \<bar>x\<bar> / 2 ^ 53"
    by (simp add: divide_right_mono)
  have "roundDouble x - x = (of_int (roundHalfEven (x / ulp)) - x / ulp) * ulp"
    using False ulp by (simp add: roundDouble_def Let_def e_def ulp_def algebra_simps)
  then have "\<bar>roundDouble x - x\<bar> = \<bar>of_int (roundHalfEven (x / ulp)) - x / ulp\<bar> * ulp"
    using ulp by (simp add: abs_mult)
  also have "\<dots> \<le> 1 / 2 * ulp"
    using roundHalfEven_error [of "x / ulp"] ulp by (intro mult_right_mono) simp_all
  finally show ?thesis using half by simp
qed

lemma roundDouble_nonneg: "0 \<le> x \<Longrightarrow> 0 \<le> roundDouble x"
proof -
  assume x: "0 \<le> x"
  have "x / 2 ^ 53 \<le> x" using x by (simp add: divide_le_eq)
  with roundDouble_error [of x] x show ?thesis by linarith
qed

text \<open>
  The expression \<open>(a / b) * 100\<close> on two counts, and its distance from the exact
  value. The counts are below \<open>2\<^sup>5\<^sup>3\<close> and so are numbers themselves.
\<close>

lemma percentage_error:
  "\<bar>fmul (fdiv (of_nat a) (of_nat b)) 100 - of_nat a / of_nat b * 100\<bar>
   \<le> of_nat a / of_nat b * 100 * (2 / 2 ^ 53 + 1 / 2 ^ 106)"
proof -
  define x :: rat where "x = of_nat a / of_nat b"
  define u :: rat where "u = 1 / 2 ^ 53"
  define q where "q = roundDouble x"
  have x0: "0 \<le> x" by (simp add: x_def)
  have u0: "0 \<le> u" by (simp add: u_def)
  have eq: "\<bar>q - x\<bar> \<le> x * u"
    using roundDouble_error [of x] x0 by (simp add: q_def u_def)
  with x0 have qa: "\<bar>q\<bar> \<le> x + x * u" by linarith
  have "\<bar>roundDouble (q * 100) - q * 100\<bar> \<le> \<bar>q * 100\<bar> * u"
    using roundDouble_error [of "q * 100"] by (simp add: u_def)
  also have "\<dots> = \<bar>q\<bar> * 100 * u" by (simp add: abs_mult)
  also have "\<dots> \<le> (x + x * u) * 100 * u"
    using qa u0 by (intro mult_right_mono) simp_all
  finally have ep: "\<bar>roundDouble (q * 100) - q * 100\<bar> \<le> (x + x * u) * 100 * u" .
  have "\<bar>q * 100 - x * 100\<bar> = \<bar>q - x\<bar> * 100"
    by (metis abs_mult abs_numeral left_diff_distrib)
  then have "\<bar>roundDouble (q * 100) - x * 100\<bar>
        \<le> \<bar>roundDouble (q * 100) - q * 100\<bar> + \<bar>q - x\<bar> * 100"
    by linarith
  also have "\<dots> \<le> (x + x * u) * 100 * u + x * u * 100"
  proof (rule add_mono [OF ep])
    from eq show "\<bar>q - x\<bar> * 100 \<le> x * u * 100" by simp
  qed
  also have "\<dots> = x * 100 * (2 * u + u * u)"
    by (simp add: algebra_simps)
  finally have "\<bar>roundDouble (q * 100) - x * 100\<bar> \<le> x * 100 * (2 * u + u * u)" .
  moreover have "2 * u + u * u = 2 / 2 ^ 53 + 1 / 2 ^ 106"
    by (simp add: u_def)
  ultimately show ?thesis
    by (simp add: fmul_def fdiv_def q_def x_def)
qed

text \<open>
  The rounded result does not pass a bound that is a number of the same or a coarser
  grid, so a percentage of a part of the whole is at most 100.
\<close>

lemma roundHalfEven_le:
  assumes "x \<le> of_int n"
  shows "roundHalfEven x \<le> n"
proof (cases "x = of_int n")
  case True
  then show ?thesis by (simp add: roundHalfEven_def)
next
  case False
  with assms have "x < of_int n" by simp
  then have "\<lfloor>x\<rfloor> < n" by (simp add: floor_less_iff)
  then show ?thesis by (simp add: roundHalfEven_def Let_def)
qed

lemma binaryExponent_less:
  assumes "0 < x" and "x < 2 powi j"
  shows "binaryExponent x < j"
proof (rule ccontr)
  assume "\<not> binaryExponent x < j"
  then have "j \<le> binaryExponent x" by simp
  then have "(2::rat) powi j \<le> 2 powi (binaryExponent x)"
    by (intro power_int_increasing) simp_all
  with binaryExponent_bounds(1) [OF assms(1)] assms(2) show False by simp
qed

lemma roundDouble_le:
  assumes "0 < x" and "x \<le> of_int c * 2 powi j" and "binaryExponent x - 52 \<le> j"
  shows "roundDouble x \<le> of_int c * 2 powi j"
proof -
  define i where "i = binaryExponent x - 52"
  define ulp :: rat where "ulp = 2 powi i"
  define n where "n = c * 2 ^ nat (j - i)"
  have ulp0: "0 < ulp" by (simp add: ulp_def)
  from assms(3) have "(2::rat) powi j = 2 powi (j - i) * 2 powi i"
    by (simp add: power_int_add [symmetric])
  also from assms(3) have "(2::rat) powi (j - i) = of_int (2 ^ nat (j - i))"
    by (simp add: i_def power_int_def)
  finally have y: "of_int c * 2 powi j = of_int n * ulp"
    by (simp add: n_def ulp_def)
  with assms(2) ulp0 have "x / ulp \<le> of_int n"
    by (simp add: pos_divide_le_eq)
  then have "roundHalfEven (x / ulp) \<le> n"
    by (rule roundHalfEven_le)
  then have "(of_int (roundHalfEven (x / ulp)) :: rat) \<le> of_int n"
    by simp
  with ulp0 have "of_int (roundHalfEven (x / ulp)) * ulp \<le> of_int n * ulp"
    by (intro mult_right_mono) simp_all
  with assms(1) show ?thesis
    unfolding y by (simp add: roundDouble_def Let_def ulp_def i_def)
qed

lemma percentage_le_100:
  assumes "a \<le> b" and "0 < b"
  shows "fmul (fdiv (of_nat a) (of_nat b)) 100 \<le> 100"
proof -
  define x :: rat where "x = of_nat a / of_nat b"
  define q where "q = roundDouble x"
  from assms have x1: "x \<le> 1" and x0: "0 \<le> x"
    by (simp_all add: x_def)
  have q1: "q \<le> 1"
  proof (cases "x = 0")
    case True
    then show ?thesis by (simp add: q_def roundDouble_def)
  next
    case False
    with x0 have pos: "0 < x" by simp
    with x1 have "binaryExponent x < 1"
      by (intro binaryExponent_less) simp_all
    with roundDouble_le [OF pos, of 1 0] x1 show ?thesis
      by (simp add: q_def)
  qed
  have q0: "0 \<le> q"
    unfolding q_def using x0 by (rule roundDouble_nonneg)
  have "roundDouble (q * 100) \<le> 100"
  proof (cases "q = 0")
    case True
    then show ?thesis by (simp add: roundDouble_def)
  next
    case False
    with q0 have pos: "0 < q * 100" by simp
    from q1 have le: "q * 100 \<le> 100" by simp
    then have "q * 100 < 2 powi 7" by simp
    with pos have "binaryExponent (q * 100) < 7"
      by (rule binaryExponent_less)
    with roundDouble_le [OF pos, of 100 0] le show ?thesis
      by simp
  qed
  then show ?thesis
    by (simp add: fmul_def fdiv_def q_def x_def)
qed

text \<open>
  A sum of non-negative numbers taken from left to right with the operator \<open>+\<close>, as
  \<open>reduce((a, b) => a + b, 0)\<close> takes it, and its distance from the exact sum.
\<close>

lemma fadd_step:
  assumes "0 \<le> acc" and "0 \<le> x"
  shows "0 \<le> fadd acc x" and "\<bar>fadd acc x - (acc + x)\<bar> \<le> (acc + x) / 2 ^ 53"
proof -
  from assms have s: "0 \<le> acc + x" by simp
  then show "0 \<le> fadd acc x"
    unfolding fadd_def by (rule roundDouble_nonneg)
  from roundDouble_error [of "acc + x"] s
  show "\<bar>fadd acc x - (acc + x)\<bar> \<le> (acc + x) / 2 ^ 53"
    by (simp add: fadd_def)
qed

lemma foldl_fadd_error:
  assumes "0 \<le> acc" and "\<forall>x\<in>set xs. 0 \<le> x"
  shows "\<bar>foldl fadd acc xs - (acc + sum_list xs)\<bar>
         \<le> (acc + sum_list xs) * ((1 + 1 / 2 ^ 53) ^ length xs - 1)"
  using assms
proof (induction xs arbitrary: acc)
  case Nil
  then show ?case by simp
next
  case (Cons x xs)
  define u :: rat where "u = 1 / 2 ^ 53"
  define acc' where "acc' = fadd acc x"
  define S where "S = sum_list xs"
  define F where "F = foldl fadd acc' xs"
  define g where "g = (1 + u) ^ length xs"
  from Cons.prems have x0: "0 \<le> x" and rest: "\<forall>x\<in>set xs. 0 \<le> x"
    by simp_all
  have S0: "0 \<le> S"
    unfolding S_def using rest by (simp add: sum_list_nonneg)
  have u0: "0 \<le> u" by (simp add: u_def)
  have g1: "1 \<le> g" unfolding g_def using u0 by (simp add: one_le_power)
  from fadd_step [OF Cons.prems(1) x0]
  have a0: "0 \<le> acc'" and ae: "\<bar>acc' - (acc + x)\<bar> \<le> (acc + x) * u"
    by (simp_all add: acc'_def u_def)
  from Cons.IH [OF a0 rest]
  have ih: "\<bar>F - (acc' + S)\<bar> \<le> (acc' + S) * (g - 1)"
    by (simp add: F_def S_def g_def u_def)
  from ae have "acc' \<le> (acc + x) * (1 + u)"
    by (simp add: algebra_simps)
  also have "\<dots> \<le> (acc + x) * (1 + u) + S * u"
    using S0 u0 by simp
  finally have "acc' + S \<le> (acc + x + S) * (1 + u)"
    by (simp add: algebra_simps)
  then have "(acc' + S) * (g - 1) \<le> (acc + x + S) * (1 + u) * (g - 1)"
    using g1 by (intro mult_right_mono) simp_all
  with ih have one: "\<bar>F - (acc' + S)\<bar> \<le> (acc + x + S) * (1 + u) * (g - 1)"
    by linarith
  have "(acc + x) * u \<le> (acc + x) * u + S * u"
    using S0 u0 by simp
  with ae have two: "\<bar>acc' - (acc + x)\<bar> \<le> (acc + x + S) * u"
    by (simp add: algebra_simps)
  have "\<bar>F - (acc + x + S)\<bar> \<le> \<bar>F - (acc' + S)\<bar> + \<bar>acc' - (acc + x)\<bar>"
    by linarith
  also from one two have "\<dots> \<le> (acc + x + S) * (1 + u) * (g - 1) + (acc + x + S) * u"
    by (rule add_mono)
  also have "\<dots> = (acc + x + S) * ((1 + u) * g - 1)"
    by (simp add: algebra_simps)
  finally show ?case
    by (simp add: F_def acc'_def S_def g_def u_def add.assoc)
qed

lemma rounded_sum_error:
  fixes k g :: rat
  assumes "\<bar>F - P\<bar> \<le> P * (g - 1)" and "\<bar>P - 100\<bar> \<le> 100 * k" and "1 \<le> g"
  shows "\<bar>F - 100\<bar> \<le> 100 * ((1 + k) * g - 1)"
proof -
  from assms(2) have "P \<le> 100 * (1 + k)" by (simp add: algebra_simps)
  with assms(3) have "P * (g - 1) \<le> 100 * (1 + k) * (g - 1)"
    by (intro mult_right_mono) simp_all
  with assms(1) have "\<bar>F - P\<bar> \<le> 100 * (1 + k) * (g - 1)" by linarith
  with assms(2) have "\<bar>F - 100\<bar> \<le> 100 * (1 + k) * (g - 1) + 100 * k" by linarith
  also have "\<dots> = 100 * ((1 + k) * g - 1)" by (simp add: algebra_simps)
  finally show ?thesis .
qed


section \<open>The file system scanner (file-utils, FileAnalyzer)\<close>

subsection \<open>Paths, extensions and languages\<close>

text \<open>
  \<open>path.join(directory, name)\<close> for a directory path as \<open>path.resolve\<close> returns it
  (no trailing separator, except the root \<open>/\<close>) and the name of a directory entry.
\<close>

definition joinPath :: "string \<Rightarrow> string \<Rightarrow> string" where
  "joinPath directory nm =
     (if endsWith directory ''/'' then directory @ nm else directory @ ''/'' @ nm)"

text \<open>
  The last component of a path, trailing separators skipped, and \<open>path.extname\<close>: the
  component from its last dot on, and the empty string when the component has no dot, when
  its only dot is its first character, or when it is \<open>..\<close>.
\<close>

definition lastComponent :: "string \<Rightarrow> string" where
  "lastComponent p =
     rev (takeWhile (\<lambda>c. c \<noteq> CHR ''/'') (dropWhile (\<lambda>c. c = CHR ''/'') (rev p)))"

definition extname :: "string \<Rightarrow> string" where
  "extname p =
     (let b = lastComponent p;
          ext = rev (takeWhile (\<lambda>c. c \<noteq> CHR ''.'') (rev b))
      in if CHR ''.'' \<notin> set b \<or> length ext + 1 = length b \<or> b = ''..'' then []
         else CHR ''.'' # ext)"

text \<open>
  \<open>s.toLowerCase()\<close>. On a string of ASCII characters it lowers the letters A to Z.
  On any other string it applies the case mapping of the Unicode tables of the runtime,
  which are no part of the repository: that mapping is the parameter \<open>lower\<close>.
\<close>

definition lowerChar :: "char \<Rightarrow> char" where
  "lowerChar c =
     (if (65::nat) \<le> of_char c \<and> of_char c \<le> (90::nat)
      then char_of (of_char c + (32::nat))
      else c)"

definition isAscii :: "string \<Rightarrow> bool" where
  "isAscii s = list_all (\<lambda>c. (of_char c :: nat) < 128) s"

definition toLowerCase :: "(string \<Rightarrow> string) \<Rightarrow> string \<Rightarrow> string" where
  "toLowerCase lower s = (if isAscii s then map lowerChar s else lower s)"

definition getFileExtension :: "(string \<Rightarrow> string) \<Rightarrow> string \<Rightarrow> string" where
  "getFileExtension lower filePath = toLowerCase lower (drop 1 (extname filePath))"

text \<open>
  \<open>languageMap[ext] || 'Unknown'\<close>. The map is a plain object, so the two lower-case
  names it inherits, \<open>constructor\<close> and \<open>__proto__\<close>, give an object instead of a
  string; each is modelled by a label of its own that no extension is mapped to,
  which is all that the comparisons with strings and the use as a key observe.
\<close>

definition languageMap :: "(string \<times> string) list" where
  "languageMap =
     [(''js'', ''JavaScript''), (''jsx'', ''JavaScript''), (''ts'', ''TypeScript''),
      (''tsx'', ''TypeScript''), (''py'', ''Python''), (''java'', ''Java''),
      (''go'', ''Go''), (''rs'', ''Rust''), (''json'', ''JSON''), (''md'', ''Markdown''),
      (''html'', ''HTML''), (''css'', ''CSS''), (''scss'', ''SCSS''), (''xml'', ''XML''),
      (''yaml'', ''YAML''), (''yml'', ''YAML''),
      (''constructor'', ''[Function: Object]''),
      (''__proto__'', ''[Object: null prototype] {}'')]"

definition detectLanguage :: "(string \<Rightarrow> string) \<Rightarrow> string \<Rightarrow> string" where
  "detectLanguage lower filePath =
     (case map_of languageMap (getFileExtension lower filePath) of
        None \<Rightarrow> ''Unknown''
      | Some l \<Rightarrow> l)"

subsection \<open>The directory tree on disk\<close>

text \<open>
  What \<open>fs.readdir(dir, {withFileTypes: true})\<close> and \<open>fs.stat\<close> return. An entry
  that is not a directory carries the size that \<open>fs.stat\<close> reports, or \<open>None\<close> when
  \<open>fs.stat\<close> throws; a directory carries its own listing, in the order of the listing
  call, or \<open>None\<close> when \<open>fs.readdir\<close> throws.
\<close>

datatype fs_entry =
    FsFile string "nat option"
  | FsDir string "fs_entry list option"

fun entryName :: "fs_entry \<Rightarrow> string" where
  "entryName (FsFile nm sz) = nm"
| "entryName (FsDir nm listing) = nm"

text \<open>\<open>fs.readdir\<close> at a path that exists: it throws for what is not a directory.\<close>

fun readdir :: "fs_entry \<Rightarrow> fs_entry list option" where
  "readdir (FsFile nm sz) = None"
| "readdir (FsDir nm listing) = listing"

subsection \<open>FileNode, buildFileTree\<close>

datatype node_type = TFile | TDirectory

datatype FileNode =
  FileNode (fn_name: string) (fn_path: string) (fn_type: node_type)
    (fn_size: "nat option") (fn_extension: "string option") (fn_language: "string option")
    (fn_children: "FileNode list option")

text \<open>The test of buildFileTree on a name: hidden, or one of the three ignored names.\<close>

definition skippedName :: "string \<Rightarrow> bool" where
  "skippedName nm =
     (startsWith nm ''.'' \<or> nm = ''node_modules'' \<or> nm = ''dist'' \<or> nm = ''build'')"

text \<open>
  \<open>buildFileTree(directory, maxDepth, currentDepth)\<close>, with the listing of
  \<open>directory\<close>; \<open>buildNodes\<close> is its loop over the entries. Whatever is thrown inside
  the \<open>try\<close>, by \<open>readdir\<close>, by \<open>stat\<close> or by the recursive call, is thrown again as
  \<open>Failed to build file tree\<close>.
\<close>

function buildFileTree ::
    "(string \<Rightarrow> string) \<Rightarrow> string \<Rightarrow> int \<Rightarrow> int \<Rightarrow> fs_entry list option \<Rightarrow> error + FileNode list"
  and buildNodes ::
    "(string \<Rightarrow> string) \<Rightarrow> string \<Rightarrow> int \<Rightarrow> int \<Rightarrow> fs_entry list \<Rightarrow> error + FileNode list"
where
  "buildFileTree lower directory maxDepth currentDepth listing =
     (if currentDepth \<ge> maxDepth then Inr []
      else (case listing of
              None \<Rightarrow> Inl FailedToBuildFileTree
            | Some entries \<Rightarrow> buildNodes lower directory maxDepth currentDepth entries))"
| "buildNodes lower directory maxDepth currentDepth [] = Inr []"
| "buildNodes lower directory maxDepth currentDepth (FsDir nm listing # entries) =
     (if skippedName nm then buildNodes lower directory maxDepth currentDepth entries
      else (case buildFileTree lower (joinPath directory nm) maxDepth (currentDepth + 1) listing of
              Inl e \<Rightarrow> Inl FailedToBuildFileTree
            | Inr children \<Rightarrow>
                (case buildNodes lower directory maxDepth currentDepth entries of
                   Inl e \<Rightarrow> Inl e
                 | Inr nodes \<Rightarrow>
                     Inr (FileNode nm (joinPath directory nm) TDirectory None None None
                            (Some children) # nodes))))"
| "buildNodes lower directory maxDepth currentDepth (FsFile nm sz # entries) =
     (if skippedName nm then buildNodes lower directory maxDepth currentDepth entries
      else (case sz of
              None \<Rightarrow> Inl FailedToBuildFileTree
            | Some bytes \<Rightarrow>
                (case buildNodes lower directory maxDepth currentDepth entries of
                   Inl e \<Rightarrow> Inl e
                 | Inr nodes \<Rightarrow>
                     Inr (FileNode nm (joinPath directory nm) TFile (Some bytes)
                            (Some (getFileExtension lower (joinPath directory nm)))
                            (Some (detectLanguage lower (joinPath directory nm)))
                            None # nodes))))"
  by pat_completeness auto
termination
  by (relation "measure (\<lambda>x. case x of
         Inl (u, d, m, c, listing) \<Rightarrow> size_option (size_list size) listing
       | Inr (u, d, m, c, entries) \<Rightarrow> size_list size entries)") auto

subsection \<open>getDirectorySize\<close>

text \<open>
  The whole body stands in one \<open>try\<close> whose \<open>catch\<close> is empty: a failing \<open>readdir\<close>
  gives 0, and a failing \<open>stat\<close> ends the loop with the bytes counted so far.
  \<open>sizeLoop\<close> is the loop, from the running total.
\<close>

function getDirectorySize :: "fs_entry list option \<Rightarrow> nat"
  and sizeLoop :: "fs_entry list \<Rightarrow> nat \<Rightarrow> nat"
where
  "getDirectorySize listing =
     (case listing of None \<Rightarrow> 0 | Some entries \<Rightarrow> sizeLoop entries 0)"
| "sizeLoop [] totalSize = totalSize"
| "sizeLoop (FsDir nm listing # entries) totalSize =
     (if nm = ''node_modules'' \<or> nm = ''dist'' \<or> nm = ''build''
      then sizeLoop entries totalSize
      else sizeLoop entries (totalSize + getDirectorySize listing))"
| "sizeLoop (FsFile nm sz # entries) totalSize =
     (case sz of
        None \<Rightarrow> totalSize
      | Some bytes \<Rightarrow> sizeLoop entries (totalSize + bytes))"
  by pat_completeness auto
termination
  by (relation "measure (\<lambda>x. case x of
         Inl listing \<Rightarrow> size_option (size_list size) listing
       | Inr (entries, t) \<Rightarrow> size_list size entries)") auto


subsection \<open>FileAnalyzer: countFiles, analyzeLanguages, analyzeProjectStructure\<close>

text \<open>
  \<open>countFiles(nodes)\<close>: a file node counts 1; any other node counts the files of its
  children, when it has children.
\<close>

function countNode :: "FileNode \<Rightarrow> nat"
  and countFiles :: "FileNode list \<Rightarrow> nat"
where
  "countNode (FileNode nm p t sz ext lang ch) =
     (if t = TFile then 1
      else (case ch of None \<Rightarrow> 0 | Some children \<Rightarrow> countFiles children))"
| "countFiles [] = 0"
| "countFiles (node # nodes) = countNode node + countFiles nodes"
  by pat_completeness auto
termination
  by (relation "measure (\<lambda>x. case x of
         Inl node \<Rightarrow> size node
       | Inr nodes \<Rightarrow> size_list size nodes)") auto

text \<open>
  A JavaScript \<open>Map\<close> with string keys, in insertion order: \<open>set\<close> on a key that is
  present replaces the value in place, on a new key it appends.
\<close>

fun mapSet :: "(string \<times> 'v) list \<Rightarrow> string \<Rightarrow> 'v \<Rightarrow> (string \<times> 'v) list" where
  "mapSet [] k v = [(k, v)]"
| "mapSet ((k', v') # m) k v = (if k' = k then (k, v) # m else (k', v') # mapSet m k v)"

record LanguageCount =
  count_files :: nat
  count_lines :: nat

record LanguageStats =
  ls_language :: string
  ls_files :: nat
  ls_lines :: nat
  ls_percentage :: rat

text \<open>
  \<open>processNodeSync(node)\<close>, on the map \<open>languageCounts\<close>: a file node with a
  language that is truthy and not \<open>Unknown\<close> adds one file to its language; the
  children of every node that has children are processed in order.
\<close>

function processNodeSync ::
    "(string \<times> LanguageCount) list \<Rightarrow> FileNode \<Rightarrow> (string \<times> LanguageCount) list"
  and processNodes ::
    "(string \<times> LanguageCount) list \<Rightarrow> FileNode list \<Rightarrow> (string \<times> LanguageCount) list"
where
  "processNodeSync languageCounts (FileNode nm p t sz ext lang ch) =
     (let counted =
            (if t = TFile \<and> truthy lang \<and> lang \<noteq> Some ''Unknown''
             then (let current = (case map_of languageCounts (the lang) of
                                    None \<Rightarrow> \<lparr>count_files = 0, count_lines = 0\<rparr>
                                  | Some c \<Rightarrow> c)
                   in mapSet languageCounts (the lang)
                        \<lparr>count_files = count_files current + 1,
                         count_lines = count_lines current\<rparr>)
             else languageCounts)
      in (case ch of None \<Rightarrow> counted | Some children \<Rightarrow> processNodes counted children))"
| "processNodes languageCounts [] = languageCounts"
| "processNodes languageCounts (node # nodes) =
     processNodes (processNodeSync languageCounts node) nodes"
  by pat_completeness auto
termination
  by (relation "measure (\<lambda>x. case x of
         Inl (m, node) \<Rightarrow> size node
       | Inr (m, nodes) \<Rightarrow> size_list size nodes)") auto

text \<open>
  \<open>analyzeLanguages(nodes)\<close>. The percentage \<open>(stats.files / totalFiles) * 100\<close> is
  computed in numbers: a rounded division, then a rounded multiplication.
\<close>

definition analyzeLanguages :: "FileNode list \<Rightarrow> LanguageStats list" where
  "analyzeLanguages nodes =
     (let languageCounts = processNodes [] nodes;
          totalFiles = foldl (\<lambda>sum stat. sum + count_files stat) 0 (map snd languageCounts)
      in map (\<lambda>(language, stats).
                \<lparr>ls_language = language, ls_files = count_files stats,
                 ls_lines = count_lines stats,
                 ls_percentage =
                   (if totalFiles > 0
                    then fmul (fdiv (of_nat (count_files stats)) (of_nat totalFiles)) 100
                    else 0)\<rparr>)
           languageCounts)"

record ProjectStructure =
  ps_path :: string
  ps_files :: "FileNode list"
  totalFiles :: nat
  totalSize :: nat
  ps_languages :: "LanguageStats list"

text \<open>
  \<open>analyzeProjectStructure(projectPath, maxDepth)\<close>: \<open>absolutePath\<close> is
  \<open>path.resolve(projectPath)\<close> and \<open>rootEntry\<close> is what the file system has at that path,
  \<open>None\<close> when \<open>fs.pathExists\<close> is false.
\<close>

definition analyzeProjectStructure ::
  "(string \<Rightarrow> string) \<Rightarrow> string \<Rightarrow> fs_entry option \<Rightarrow> int \<Rightarrow> error + ProjectStructure" where
  "analyzeProjectStructure lower absolutePath rootEntry maxDepth =
     (case rootEntry of
        None \<Rightarrow> Inl ProjectPathDoesNotExist
      | Some r \<Rightarrow>
          (case buildFileTree lower absolutePath maxDepth 0 (readdir r) of
             Inl e \<Rightarrow> Inl e
           | Inr files \<Rightarrow>
               Inr \<lparr>ps_path = absolutePath, ps_files = files,
                    totalFiles = countFiles files,
                    totalSize = getDirectorySize (readdir r),
                    ps_languages = analyzeLanguages files\<rparr>))"

subsection \<open>Notions used in the statements about the scanner\<close>

text \<open>
  Every node of a tree, and the number of file-kind nodes among them, descending into
  the children of every node.
\<close>

function nodesOf :: "FileNode \<Rightarrow> FileNode list"
  and allNodes :: "FileNode list \<Rightarrow> FileNode list"
where
  "nodesOf (FileNode nm p t sz ext lang ch) =
     FileNode nm p t sz ext lang ch
       # (case ch of None \<Rightarrow> [] | Some children \<Rightarrow> allNodes children)"
| "allNodes [] = []"
| "allNodes (node # nodes) = nodesOf node @ allNodes nodes"
  by pat_completeness auto
termination
  by (relation "measure (\<lambda>x. case x of
         Inl node \<Rightarrow> size node
       | Inr nodes \<Rightarrow> size_list size nodes)") auto

definition fileKindNodes :: "FileNode list \<Rightarrow> nat" where
  "fileKindNodes nodes = length (filter (\<lambda>n. fn_type n = TFile) (allNodes nodes))"

text \<open>The classified files of a tree: file nodes with a language label other than Unknown.\<close>

definition classified :: "FileNode \<Rightarrow> bool" where
  "classified n = (fn_type n = TFile \<and> truthy (fn_language n)
                   \<and> fn_language n \<noteq> Some ''Unknown'')"

definition classifiedFiles :: "FileNode list \<Rightarrow> FileNode list" where
  "classifiedFiles nodes = filter classified (allNodes nodes)"

text \<open>
  The bytes that one entry of a listing adds to the total of getDirectorySize, and the
  entries that its loop reaches: those before the first failing \<open>stat\<close>.
\<close>

fun statSucceeds :: "fs_entry \<Rightarrow> bool" where
  "statSucceeds (FsFile nm sz) = (sz \<noteq> None)"
| "statSucceeds (FsDir nm listing) = True"

fun entryBytes :: "fs_entry \<Rightarrow> nat" where
  "entryBytes (FsFile nm sz) = (case sz of None \<Rightarrow> 0 | Some bytes \<Rightarrow> bytes)"
| "entryBytes (FsDir nm listing) =
     (if nm = ''node_modules'' \<or> nm = ''dist'' \<or> nm = ''build'' then 0
      else getDirectorySize listing)"


subsection \<open>Lemmas on the scanner\<close>

text \<open>What every tree built by buildFileTree satisfies, node by node.\<close>

definition builtNode :: "FileNode \<Rightarrow> bool" where
  "builtNode n = ((fn_type n = TFile \<longrightarrow> fn_children n = None) \<and> \<not> skippedName (fn_name n))"

lemma buildFileTree_builtNode:
  "(\<forall>nodes. buildFileTree lower directory maxDepth currentDepth listing = Inr nodes
      \<longrightarrow> list_all builtNode (allNodes nodes))"
  "(\<forall>nodes. buildNodes lower directory maxDepth currentDepth entries = Inr nodes
      \<longrightarrow> list_all builtNode (allNodes nodes))"
proof (induction lower directory maxDepth currentDepth listing
         and lower directory maxDepth currentDepth entries
       rule: buildFileTree_buildNodes.induct)
  case (1 lower directory maxDepth currentDepth listing)
  then show ?case by (auto split: option.splits)
next
  case (2 lower directory maxDepth currentDepth)
  then show ?case by simp
next
  case (3 lower directory maxDepth currentDepth nm listing entries)
  show ?case
  proof (cases "skippedName nm")
    case True
    with 3 show ?thesis by simp
  next
    case False
    with 3 show ?thesis
      by (auto simp add: builtNode_def split: sum.splits)
  qed
next
  case (4 lower directory maxDepth currentDepth nm sz entries)
  show ?case
  proof (cases "skippedName nm")
    case True
    with 4 show ?thesis by simp
  next
    case False
    with 4 show ?thesis
      by (auto simp add: builtNode_def split: sum.splits option.splits)
  qed
qed

lemma countFiles_fileKindNodes:
  "list_all builtNode (nodesOf node)
     \<Longrightarrow> countNode node = length (filter (\<lambda>n. fn_type n = TFile) (nodesOf node))"
  "list_all builtNode (allNodes nodes)
     \<Longrightarrow> countFiles nodes = length (filter (\<lambda>n. fn_type n = TFile) (allNodes nodes))"
proof (induction node and nodes rule: countNode_countFiles.induct)
  case (1 nm p t sz ext lang ch)
  then show ?case
    by (cases t; cases ch) (auto simp add: builtNode_def)
next
  case 2
  then show ?case by simp
next
  case (3 node nodes)
  then show ?case by simp
qed

lemma sizeLoop_sum:
  "sizeLoop entries t = t + (\<Sum>e\<leftarrow>takeWhile statSucceeds entries. entryBytes e)"
proof (induction entries arbitrary: t)
  case Nil
  then show ?case by simp
next
  case (Cons e entries)
  then show ?case by (cases e) (auto split: option.splits)
qed

text \<open>The files counted in a map of language counts.\<close>

definition sumFiles :: "(string \<times> LanguageCount) list \<Rightarrow> nat" where
  "sumFiles m = (\<Sum>(l, c)\<leftarrow>m. count_files c)"

lemma foldl_count_files:
  "foldl (\<lambda>sum stat. sum + count_files stat) a stats = a + (\<Sum>c\<leftarrow>stats. count_files c)"
  by (induction stats arbitrary: a) auto

lemma sumFiles_mapSet:
  "sumFiles (mapSet m k v) + (case map_of m k of None \<Rightarrow> 0 | Some c \<Rightarrow> count_files c)
   = sumFiles m + count_files v"
  by (induction m) (auto simp add: sumFiles_def)

lemma sumFiles_process:
  "sumFiles (processNodeSync m node) = sumFiles m + length (filter classified (nodesOf node))"
  "sumFiles (processNodes m nodes) = sumFiles m + length (filter classified (allNodes nodes))"
proof (induction m node and m nodes rule: processNodeSync_processNodes.induct)
  case (1 languageCounts nm p t sz ext lang ch)
  define counted where "counted =
    (if t = TFile \<and> truthy lang \<and> lang \<noteq> Some ''Unknown''
     then (let current = (case map_of languageCounts (the lang) of
                            None \<Rightarrow> \<lparr>count_files = 0, count_lines = 0\<rparr>
                          | Some c \<Rightarrow> c)
           in mapSet languageCounts (the lang)
                \<lparr>count_files = count_files current + 1,
                 count_lines = count_lines current\<rparr>)
     else languageCounts)"
  have here: "sumFiles counted = sumFiles languageCounts
                + (if classified (FileNode nm p t sz ext lang ch) then 1 else 0)"
  proof (cases "t = TFile \<and> truthy lang \<and> lang \<noteq> Some ''Unknown''")
    case True
    then have c: "classified (FileNode nm p t sz ext lang ch)"
      by (simp add: classified_def)
    show ?thesis
      using sumFiles_mapSet [of languageCounts "the lang"
          "\<lparr>count_files = count_files (case map_of languageCounts (the lang) of
                                          None \<Rightarrow> \<lparr>count_files = 0, count_lines = 0\<rparr>
                                        | Some c \<Rightarrow> c) + 1,
            count_lines = count_lines (case map_of languageCounts (the lang) of
                                          None \<Rightarrow> \<lparr>count_files = 0, count_lines = 0\<rparr>
                                        | Some c \<Rightarrow> c)\<rparr>"] True c
      by (simp add: counted_def Let_def split: option.splits)
  next
    case False
    then have "\<not> classified (FileNode nm p t sz ext lang ch)"
      by (auto simp add: classified_def)
    moreover from False have "counted = languageCounts"
      unfolding counted_def by (rule if_not_P)
    ultimately show ?thesis by simp
  qed
  show ?case
  proof (cases ch)
    case None
    with here show ?thesis by (simp add: counted_def Let_def)
  next
    case (Some children)
    with "1.IH" [of counted children] here show ?thesis
      by (simp add: counted_def Let_def)
  qed
next
  case (2 languageCounts)
  then show ?case by simp
next
  case (3 languageCounts node nodes)
  then show ?case by simp
qed

lemma sum_exact_percentages:
  fixes total :: rat
  shows "(\<Sum>(l, c)\<leftarrow>m. of_nat (count_files c) / total * 100)
         = of_nat (sumFiles m) / total * 100"
  by (induction m) (auto simp add: sumFiles_def add_divide_distrib distrib_right)

lemma sum_rounded_percentages:
  fixes total :: nat
  shows "\<bar>(\<Sum>(l, c)\<leftarrow>m. fmul (fdiv (of_nat (count_files c)) (of_nat total)) 100)
    - (\<Sum>(l, c)\<leftarrow>m. of_nat (count_files c) / of_nat total * 100)\<bar>
   \<le> (\<Sum>(l, c)\<leftarrow>m. of_nat (count_files c) / of_nat total * 100)
      * (2 / 2 ^ 53 + 1 / 2 ^ 106)"
proof (induction m)
  case Nil
  then show ?case by simp
next
  case (Cons lc m)
  obtain l c where lc: "lc = (l, c)" by (cases lc)
  define k :: rat where "k = 2 / 2 ^ 53 + 1 / 2 ^ 106"
  define a where "a = fmul (fdiv (of_nat (count_files c)) (of_nat total)) 100"
  define a' :: rat where "a' = of_nat (count_files c) / of_nat total * 100"
  define r where
    "r = (\<Sum>(l, c)\<leftarrow>m. fmul (fdiv (of_nat (count_files c)) (of_nat total)) 100)"
  define r' :: rat where
    "r' = (\<Sum>(l, c)\<leftarrow>m. of_nat (count_files c) / of_nat total * 100)"
  have head: "\<bar>a - a'\<bar> \<le> a' * k"
    unfolding a_def a'_def k_def by (rule percentage_error)
  have rest: "\<bar>r - r'\<bar> \<le> r' * k"
    unfolding r_def r'_def k_def by (rule Cons.IH)
  have "\<bar>(a + r) - (a' + r')\<bar> \<le> \<bar>a - a'\<bar> + \<bar>r - r'\<bar>"
    by linarith
  also from head rest have "\<dots> \<le> a' * k + r' * k"
    by (rule add_mono)
  also have "\<dots> = (a' + r') * k"
    by (simp add: distrib_right)
  finally show ?case
    unfolding lc a_def a'_def r_def r'_def k_def by simp
qed


subsection \<open>A sample project\<close>

text \<open>
  A project directory with a hidden file, a hidden directory, a dependency directory and
  two visible levels.
\<close>

definition sampleListing :: "fs_entry list" where
  "sampleListing =
     [FsFile ''.env'' (Some 100),
      FsFile ''a.js'' (Some 10),
      FsDir ''.git'' (Some [FsFile ''HEAD'' (Some 23)]),
      FsDir ''node_modules'' (Some [FsFile ''x.js'' (Some 1000)]),
      FsDir ''src'' (Some [FsFile ''b.ts'' (Some 5), FsFile ''notes.txt'' (Some 3)])]"

text \<open>
  A project directory whose listing begins with a dot-named entry whose \<open>stat\<close> fails,
  a dangling symbolic link for instance.
\<close>

definition brokenListing :: "fs_entry list" where
  "brokenListing =
     [FsFile ''.broken'' None,
      FsFile ''.env'' (Some 100),
      FsDir ''.git'' (Some [FsFile ''HEAD'' (Some 23)]),
      FsFile ''a.js'' (Some 10)]"

text \<open>A project with one file in each of three languages.\<close>

definition threeLanguages :: "fs_entry list" where
  "threeLanguages =
     [FsFile ''a.js'' (Some 10), FsFile ''b.ts'' (Some 5), FsFile ''c.py'' (Some 7)]"

text \<open>
  The total that C4 describes: the bytes of the files that the name test of the tree
  keeps, at every level.
\<close>

function visibleBytes :: "fs_entry list \<Rightarrow> nat" where
  "visibleBytes [] = 0"
| "visibleBytes (FsFile nm sz # entries) =
     (if skippedName nm then 0 else (case sz of None \<Rightarrow> 0 | Some bytes \<Rightarrow> bytes))
     + visibleBytes entries"
| "visibleBytes (FsDir nm listing # entries) =
     (if skippedName nm then 0
      else (case listing of None \<Rightarrow> 0 | Some es \<Rightarrow> visibleBytes es))
     + visibleBytes entries"
  by pat_completeness auto
termination
  by (relation "measure (size_list size)") auto

lemma sample_scan_returns:
  "\<exists>ps. analyzeProjectStructure id ''/proj'' (Some (FsDir ''proj'' (Some sampleListing))) 10
         = Inr ps"
  by (simp add: analyzeProjectStructure_def sampleListing_def skippedName_def)

lemma analyzeProjectStructure_Inr:
  assumes "analyzeProjectStructure lower absolutePath rootEntry maxDepth = Inr ps"
  shows "\<exists>r. rootEntry = Some r
             \<and> buildFileTree lower absolutePath maxDepth 0 (readdir r) = Inr (ps_files ps)
             \<and> totalFiles ps = countFiles (ps_files ps)
             \<and> totalSize ps = getDirectorySize (readdir r)
             \<and> ps_languages ps = analyzeLanguages (ps_files ps)"
proof (cases rootEntry)
  case None
  with assms show ?thesis by (simp add: analyzeProjectStructure_def)
next
  case (Some r)
  with assms show ?thesis
    by (cases "buildFileTree lower absolutePath maxDepth 0 (readdir r)")
       (auto simp add: analyzeProjectStructure_def
             simp del: buildFileTree.simps getDirectorySize.simps)
qed

lemma getDirectorySize_Some:
  "getDirectorySize (Some entries) = (\<Sum>e\<leftarrow>takeWhile statSucceeds entries. entryBytes e)"
  by (simp add: sizeLoop_sum)

lemma getDirectorySize_reached:
  assumes "list_all statSucceeds pre"
  shows "getDirectorySize (Some (pre @ e # post))
         = (\<Sum>e\<leftarrow>pre. entryBytes e)
           + (if statSucceeds e then entryBytes e + getDirectorySize (Some post) else 0)"
proof -
  from assms have "takeWhile statSucceeds (pre @ e # post)
                   = pre @ takeWhile statSucceeds (e # post)"
    by (intro takeWhile_append2) (simp add: list_all_iff)
  then show ?thesis
    unfolding getDirectorySize_Some by simp
qed

lemma sumFiles_Nil: "sumFiles [] = 0"
  by (simp add: sumFiles_def)

subsection \<open>Claims about the scanner\<close>

text \<open>
  C6. The \<open>totalFiles\<close> of a scan is the number of file-kind nodes of the returned
  tree, counted through all levels.
\<close>

theorem totalFiles_counts_file_nodes:
  assumes "analyzeProjectStructure lower absolutePath rootEntry maxDepth = Inr ps"
  shows "totalFiles ps = fileKindNodes (ps_files ps)"
proof -
  from analyzeProjectStructure_Inr [OF assms] obtain r where
    built: "buildFileTree lower absolutePath maxDepth 0 (readdir r) = Inr (ps_files ps)"
    and total: "totalFiles ps = countFiles (ps_files ps)"
    by blast
  from built have "list_all builtNode (allNodes (ps_files ps))"
    using buildFileTree_builtNode(1) by blast
  then have "countFiles (ps_files ps) = fileKindNodes (ps_files ps)"
    unfolding fileKindNodes_def by (rule countFiles_fileKindNodes(2))
  with total show ?thesis by simp
qed

theorem totalFiles_counts_file_nodes_witness:
  "\<exists>ps. analyzeProjectStructure id ''/proj'' (Some (FsDir ''proj'' (Some sampleListing))) 10
           = Inr ps
        \<and> totalFiles ps = 3 \<and> fileKindNodes (ps_files ps) = 3"
proof -
  from sample_scan_returns obtain ps where
    run: "analyzeProjectStructure id ''/proj'' (Some (FsDir ''proj'' (Some sampleListing))) 10
          = Inr ps"
    by blast
  then have "totalFiles ps = 3"
    by (auto simp add: analyzeProjectStructure_def sampleListing_def skippedName_def)
  with totalFiles_counts_file_nodes [OF run] run show ?thesis
    by auto
qed

text \<open>
  C4 (as the code has it). Entries whose name begins with a dot or is \<open>node_modules\<close>,
  \<open>dist\<close> or \<open>build\<close> are excluded from the returned tree. \<open>totalSize\<close> is the result of
  getDirectorySize on the root, which has a name test of its own, on directories only
  and for the three names \<open>node_modules\<close>, \<open>dist\<close> and \<open>build\<close> only. It gives 0 for a
  directory whose listing cannot be read, and otherwise walks the listing in order up to
  the first entry that is not a directory and whose \<open>stat\<close> fails, where the walk of
  this listing ends with the total reached so far. Every entry that the walk reaches
  adds its part: a file its bytes whatever its name, a directory named \<open>node_modules\<close>,
  \<open>dist\<close> or \<open>build\<close> nothing, a directory of any other name the total of its own
  listing. So the bytes of a dot-named file and of the files under a dot-named directory
  are part of \<open>totalSize\<close> whenever the walk reaches them.
\<close>

theorem scanner_pruning:
  assumes "analyzeProjectStructure lower absolutePath (Some r) maxDepth = Inr ps"
  shows "list_all (\<lambda>n. \<not> skippedName (fn_name n)) (allNodes (ps_files ps))
         \<and> totalSize ps = getDirectorySize (readdir r)
         \<and> getDirectorySize None = 0
         \<and> getDirectorySize (Some entries)
             = (\<Sum>e\<leftarrow>takeWhile statSucceeds entries. entryBytes e)
         \<and> (list_all statSucceeds pre
              \<longrightarrow> getDirectorySize (Some (pre @ FsFile nm (Some bytes) # post))
                    = (\<Sum>e\<leftarrow>pre. entryBytes e) + bytes + getDirectorySize (Some post))
         \<and> (list_all statSucceeds pre
              \<longrightarrow> getDirectorySize (Some (pre @ FsFile nm None # post))
                    = (\<Sum>e\<leftarrow>pre. entryBytes e))
         \<and> (list_all statSucceeds pre
              \<and> dnm \<noteq> ''node_modules'' \<and> dnm \<noteq> ''dist'' \<and> dnm \<noteq> ''build''
              \<longrightarrow> getDirectorySize (Some (pre @ FsDir dnm listing # post))
                    = (\<Sum>e\<leftarrow>pre. entryBytes e) + getDirectorySize listing
                      + getDirectorySize (Some post))
         \<and> (list_all statSucceeds pre
              \<and> (dnm = ''node_modules'' \<or> dnm = ''dist'' \<or> dnm = ''build'')
              \<longrightarrow> getDirectorySize (Some (pre @ FsDir dnm listing # post))
                    = (\<Sum>e\<leftarrow>pre. entryBytes e) + getDirectorySize (Some post))"
proof -
  from analyzeProjectStructure_Inr [OF assms] have
    built: "buildFileTree lower absolutePath maxDepth 0 (readdir r) = Inr (ps_files ps)"
    and total: "totalSize ps = getDirectorySize (readdir r)"
    by auto
  from built have "list_all builtNode (allNodes (ps_files ps))"
    using buildFileTree_builtNode(1) by blast
  then have tree: "list_all (\<lambda>n. \<not> skippedName (fn_name n)) (allNodes (ps_files ps))"
    by (simp add: list_all_iff builtNode_def)
  have unreadable: "getDirectorySize None = 0"
    by simp
  have walk: "getDirectorySize (Some entries)
              = (\<Sum>e\<leftarrow>takeWhile statSucceeds entries. entryBytes e)"
    by (rule getDirectorySize_Some)
  have fileBytes: "getDirectorySize (Some (pre @ FsFile nm (Some bytes) # post))
              = (\<Sum>e\<leftarrow>pre. entryBytes e) + bytes + getDirectorySize (Some post)"
    if "list_all statSucceeds pre"
    using getDirectorySize_reached [OF that, of "FsFile nm (Some bytes)" post]
    by (simp del: getDirectorySize.simps)
  have failing: "getDirectorySize (Some (pre @ FsFile nm None # post))
              = (\<Sum>e\<leftarrow>pre. entryBytes e)"
    if "list_all statSucceeds pre"
    using getDirectorySize_reached [OF that, of "FsFile nm None" post]
    by (simp del: getDirectorySize.simps)
  have dir: "getDirectorySize (Some (pre @ FsDir dnm listing # post))
             = (\<Sum>e\<leftarrow>pre. entryBytes e) + getDirectorySize listing
               + getDirectorySize (Some post)"
    if "list_all statSucceeds pre"
      and "dnm \<noteq> ''node_modules'' \<and> dnm \<noteq> ''dist'' \<and> dnm \<noteq> ''build''"
    using getDirectorySize_reached [OF that(1), of "FsDir dnm listing" post] that(2)
    by (simp del: getDirectorySize.simps)
  have ignored: "getDirectorySize (Some (pre @ FsDir dnm listing # post))
                 = (\<Sum>e\<leftarrow>pre. entryBytes e) + getDirectorySize (Some post)"
    if "list_all statSucceeds pre"
      and "dnm = ''node_modules'' \<or> dnm = ''dist'' \<or> dnm = ''build''"
    using getDirectorySize_reached [OF that(1), of "FsDir dnm listing" post] that(2)
    by (auto simp del: getDirectorySize.simps)
  from tree total unreadable walk fileBytes failing dir ignored show ?thesis
    by blast
qed

theorem scanner_pruning_witness:
  "\<exists>ps. analyzeProjectStructure id ''/proj'' (Some (FsDir ''proj'' (Some brokenListing))) 10
           = Inr ps
        \<and> map fn_name (allNodes (ps_files ps)) = [''a.js'']
        \<and> list_all (\<lambda>n. \<not> skippedName (fn_name n)) (allNodes (ps_files ps))
        \<and> totalSize ps = getDirectorySize (Some brokenListing)
        \<and> totalSize ps = 0
        \<and> getDirectorySize None = 0
        \<and> getDirectorySize (Some sampleListing)
            = (\<Sum>e\<leftarrow>takeWhile statSucceeds sampleListing. entryBytes e)
        \<and> list_all statSucceeds [FsFile ''a.js'' (Some 10)]
        \<and> getDirectorySize (Some ([FsFile ''a.js'' (Some 10)] @ FsFile ''.env'' (Some 100)
                                     # [FsFile ''b.js'' (Some 7)]))
            = 10 + 100 + 7
        \<and> getDirectorySize (Some ([FsFile ''a.js'' (Some 10)] @ FsFile ''.broken'' None
                                     # [FsFile ''b.js'' (Some 7)]))
            = 10
        \<and> getDirectorySize (Some ([FsFile ''a.js'' (Some 10)]
                                     @ FsDir ''.git'' (Some [FsFile ''HEAD'' (Some 23)])
                                     # [FsFile ''b.js'' (Some 7)]))
            = 10 + 23 + 7
        \<and> getDirectorySize (Some ([FsFile ''a.js'' (Some 10)]
                                     @ FsDir ''node_modules'' (Some [FsFile ''x.js'' (Some 1000)])
                                     # [FsFile ''b.js'' (Some 7)]))
            = 10 + 7"
proof -
  have "\<exists>ps. analyzeProjectStructure id ''/proj'' (Some (FsDir ''proj'' (Some brokenListing))) 10
           = Inr ps"
    by (simp add: analyzeProjectStructure_def brokenListing_def skippedName_def)
  then obtain ps where
    run: "analyzeProjectStructure id ''/proj'' (Some (FsDir ''proj'' (Some brokenListing))) 10
          = Inr ps"
    by blast
  then have nodes: "map fn_name (allNodes (ps_files ps)) = [''a.js'']"
    and zero: "totalSize ps = 0"
    by (auto simp add: analyzeProjectStructure_def brokenListing_def skippedName_def)
  have reached: "list_all statSucceeds [FsFile ''a.js'' (Some 10)]"
    by simp
  have names: "''.git'' \<noteq> ''node_modules'' \<and> ''.git'' \<noteq> ''dist'' \<and> ''.git'' \<noteq> ''build''"
    by simp
  have parts: "getDirectorySize (Some [FsFile ''b.js'' (Some 7)]) = 7"
    "getDirectorySize (Some [FsFile ''HEAD'' (Some 23)]) = 23"
    "(\<Sum>e\<leftarrow>[FsFile ''a.js'' (Some 10)]. entryBytes e) = 10"
    by simp_all
  from scanner_pruning [OF run, of sampleListing "[FsFile ''a.js'' (Some 10)]" "''.env''" 100
      "[FsFile ''b.js'' (Some 7)]" "''.git''" "Some [FsFile ''HEAD'' (Some 23)]"]
    scanner_pruning [OF run, of sampleListing "[FsFile ''a.js'' (Some 10)]" "''.broken''" 100
      "[FsFile ''b.js'' (Some 7)]" "''node_modules''" "Some [FsFile ''x.js'' (Some 1000)]"]
    reached names parts run nodes zero
  show ?thesis
    by (intro exI [of _ ps]) (simp del: getDirectorySize.simps)
qed

text \<open>
  C4 as stated fails: in the sample project the tree keeps \<open>a.js\<close>, \<open>src\<close>,
  \<open>b.ts\<close> and \<open>notes.txt\<close>, whose files have 18 bytes together, and \<open>totalSize\<close> is
  141: it contains the 100 bytes of \<open>.env\<close> and the 23 bytes of \<open>.git/HEAD\<close>. No
  \<open>stat\<close> fails in this project.
\<close>

theorem totalSize_counts_hidden_entries_counterexample:
  "map_sum id totalSize
     (analyzeProjectStructure id ''/proj'' (Some (FsDir ''proj'' (Some sampleListing))) 10)
   = Inr 141
   \<and> map_sum id (\<lambda>ps. map fn_name (allNodes (ps_files ps)))
       (analyzeProjectStructure id ''/proj'' (Some (FsDir ''proj'' (Some sampleListing))) 10)
     = Inr [''a.js'', ''src'', ''b.ts'', ''notes.txt'']
   \<and> visibleBytes sampleListing = 18"
  by (simp add: analyzeProjectStructure_def sampleListing_def skippedName_def)

text \<open>
  C7. When a scan returns a tree with at least one classified file, the percentages of
  the returned language statistics sum to 100 up to the rounding of the operations on
  numbers. Each percentage is the result of a rounded division and a rounded
  multiplication, so the exact sum of the returned numbers differs from 100 by at most
  \<open>100 * (2 / 2\<^sup>5\<^sup>3 + 1 / 2\<^sup>1\<^sup>0\<^sup>6)\<close>, which is less than \<open>3 / 10\<^sup>1\<^sup>4\<close>; and the sum that a caller
  takes from left to right with the operator \<open>+\<close>, which rounds once more for each of the
  \<open>n\<close> returned languages, differs from 100 by at most
  \<open>100 * ((1 + 2 / 2\<^sup>5\<^sup>3 + 1 / 2\<^sup>1\<^sup>0\<^sup>6) * (1 + 1 / 2\<^sup>5\<^sup>3)\<^sup>n - 1)\<close>.
\<close>

theorem language_percentages_sum_to_100:
  assumes "analyzeProjectStructure lower absolutePath rootEntry maxDepth = Inr ps"
    and "classifiedFiles (ps_files ps) \<noteq> []"
  shows "\<bar>(\<Sum>s\<leftarrow>ps_languages ps. ls_percentage s) - 100\<bar>
         \<le> 100 * (2 / 2 ^ 53 + 1 / 2 ^ 106)
       \<and> \<bar>foldl fadd 0 (map ls_percentage (ps_languages ps)) - 100\<bar>
         \<le> 100 * ((1 + (2 / 2 ^ 53 + 1 / 2 ^ 106))
                    * (1 + 1 / 2 ^ 53) ^ length (ps_languages ps) - 1)"
proof -
  define m where "m = processNodes [] (ps_files ps)"
  define total where "total = sumFiles m"
  define pcts where "pcts = map ls_percentage (ps_languages ps)"
  from analyzeProjectStructure_Inr [OF assms(1)]
  have langs: "ps_languages ps = analyzeLanguages (ps_files ps)"
    by blast
  have fold: "foldl (\<lambda>sum stat. sum + count_files stat) 0 (map snd m) = total"
    by (simp add: foldl_count_files total_def sumFiles_def split_def comp_def)
  have "total = length (classifiedFiles (ps_files ps))"
    by (simp add: total_def m_def sumFiles_process(2) classifiedFiles_def sumFiles_Nil)
  with assms(2) have pos: "total > 0" by simp
  have rounded: "pcts = map (\<lambda>(l, c). fmul (fdiv (of_nat (count_files c)) (of_nat total)) 100) m"
    unfolding pcts_def langs analyzeLanguages_def Let_def m_def [symmetric] fold
    using pos by (simp add: comp_def split_def)
  have "(\<Sum>(l, c)\<leftarrow>m. of_nat (count_files c) / of_nat total * (100::rat))
        = of_nat (sumFiles m) / of_nat total * 100"
    by (rule sum_exact_percentages)
  also have "\<dots> = 100"
    using pos by (simp add: total_def)
  finally have exact:
    "(\<Sum>(l, c)\<leftarrow>m. of_nat (count_files c) / of_nat total * (100::rat)) = 100" .
  from sum_rounded_percentages [of total m]
  have sum: "\<bar>sum_list pcts - 100\<bar> \<le> 100 * (2 / 2 ^ 53 + 1 / 2 ^ 106)"
    unfolding exact rounded .
  have nonneg: "\<forall>x\<in>set pcts. 0 \<le> x"
    unfolding rounded by (auto simp add: fmul_def fdiv_def intro!: roundDouble_nonneg)
  have "\<bar>foldl fadd 0 pcts - (0 + sum_list pcts)\<bar>
        \<le> (0 + sum_list pcts) * ((1 + 1 / 2 ^ 53) ^ length pcts - 1)"
    using nonneg by (intro foldl_fadd_error) simp_all
  then have "\<bar>foldl fadd 0 pcts - sum_list pcts\<bar>
        \<le> sum_list pcts * ((1 + 1 / 2 ^ 53) ^ length pcts - 1)"
    by simp
  moreover have "(1::rat) \<le> (1 + 1 / 2 ^ 53) ^ length pcts"
    by (rule one_le_power) simp
  ultimately have "\<bar>foldl fadd 0 pcts - 100\<bar>
        \<le> 100 * ((1 + (2 / 2 ^ 53 + 1 / 2 ^ 106)) * (1 + 1 / 2 ^ 53) ^ length pcts - 1)"
    using sum by (intro rounded_sum_error)
  with sum show ?thesis
    by (simp add: pcts_def)
qed

theorem language_percentages_sum_to_100_witness:
  "\<exists>ps. analyzeProjectStructure id ''/proj'' (Some (FsDir ''proj'' (Some threeLanguages))) 10
           = Inr ps
        \<and> map ls_language (ps_languages ps) = [''JavaScript'', ''TypeScript'', ''Python'']
        \<and> map fn_name (classifiedFiles (ps_files ps)) = [''a.js'', ''b.ts'', ''c.py'']
        \<and> (\<Sum>s\<leftarrow>ps_languages ps. ls_percentage s) = 100 - 1 / 2 ^ 46
        \<and> foldl fadd 0 (map ls_percentage (ps_languages ps)) = 100 - 1 / 2 ^ 46
        \<and> \<bar>(\<Sum>s\<leftarrow>ps_languages ps. ls_percentage s) - 100\<bar>
            \<le> 100 * (2 / 2 ^ 53 + 1 / 2 ^ 106)
        \<and> \<bar>foldl fadd 0 (map ls_percentage (ps_languages ps)) - 100\<bar>
            \<le> 100 * ((1 + (2 / 2 ^ 53 + 1 / 2 ^ 106))
                       * (1 + 1 / 2 ^ 53) ^ length (ps_languages ps) - 1)"
proof -
  have "\<exists>ps. analyzeProjectStructure id ''/proj'' (Some (FsDir ''proj'' (Some threeLanguages))) 10
           = Inr ps"
    by (simp add: analyzeProjectStructure_def threeLanguages_def skippedName_def)
  then obtain ps where
    run: "analyzeProjectStructure id ''/proj'' (Some (FsDir ''proj'' (Some threeLanguages))) 10
          = Inr ps"
    by blast
  then have files: "map fn_name (classifiedFiles (ps_files ps)) = [''a.js'', ''b.ts'', ''c.py'']"
    and langs: "map ls_language (ps_languages ps) = [''JavaScript'', ''TypeScript'', ''Python'']"
    and pcts: "map ls_percentage (ps_languages ps)
               = [fmul (fdiv 1 3) 100, fmul (fdiv 1 3) 100, fmul (fdiv 1 3) 100]"
    by (auto simp add: analyzeProjectStructure_def threeLanguages_def skippedName_def
        classifiedFiles_def classified_def analyzeLanguages_def joinPath_def endsWith_def
        detectLanguage_def getFileExtension_def extname_def lastComponent_def
        toLowerCase_def isAscii_def lowerChar_def languageMap_def Let_def)
  have third: "fmul (fdiv 1 3) 100 = 2345624805922133 / 70368744177664"
    by code_simp
  have total: "(\<Sum>s\<leftarrow>ps_languages ps. ls_percentage s) = 100 - 1 / 2 ^ 46"
    unfolding pcts third by simp
  have "foldl fadd 0 [fmul (fdiv 1 3) 100, fmul (fdiv 1 3) 100, fmul (fdiv 1 3) 100]
        = 100 - 1 / 2 ^ 46"
    by code_simp
  then have added: "foldl fadd 0 (map ls_percentage (ps_languages ps)) = 100 - 1 / 2 ^ 46"
    unfolding pcts .
  from files have "classifiedFiles (ps_files ps) \<noteq> []" by auto
  from language_percentages_sum_to_100 [OF run this] run files langs total added
  show ?thesis
    by (intro exI [of _ ps]) simp
qed

section \<open>The dependency graph (DependencyAnalyzer)\<close>

subsection \<open>Cycle detection\<close>

record DependencyNode =
  dn_name :: string
  dn_path :: string
  dn_imports :: "string list"
  dn_exports :: "string list"
  dn_dependencies :: "string list"

record Edge =
  e_from :: string
  e_to :: string
  e_type :: string

record DependencyGraph =
  dg_nodes :: "DependencyNode list"
  dg_edges :: "Edge list"
  dg_circular :: "string list list"

text \<open>
  The adjacency list \<open>graph\<close>, a \<open>Map\<close> from a path to the array of its import
  strings: \<open>if (!graph.has(edge.from)) graph.set(edge.from, []);
  graph.get(edge.from).push(edge.to)\<close>.
\<close>

definition addEdge :: "(string \<times> string list) list \<Rightarrow> Edge \<Rightarrow> (string \<times> string list) list" where
  "addEdge graph edge =
     (let g = (if map_of graph (e_from edge) = None then mapSet graph (e_from edge) []
               else graph)
      in (case map_of g (e_from edge) of
            None \<Rightarrow> g
          | Some targets \<Rightarrow> mapSet g (e_from edge) (targets @ [e_to edge])))"

definition buildAdjacency :: "Edge list \<Rightarrow> (string \<times> string list) list" where
  "buildAdjacency edges = foldl addEdge [] edges"

text \<open>\<open>graph.get(node) || []\<close>\<close>

definition neighborsOf :: "(string \<times> string list) list \<Rightarrow> string \<Rightarrow> string list" where
  "neighborsOf graph node = (case map_of graph node of None \<Rightarrow> [] | Some ns \<Rightarrow> ns)"

text \<open>\<open>path.indexOf(node)\<close>: the first index, \<open>None\<close> for the result \<open>-1\<close>.\<close>

fun indexOf :: "string list \<Rightarrow> string \<Rightarrow> nat option" where
  "indexOf [] x = None"
| "indexOf (y # ys) x = (if y = x then Some 0 else map_option Suc (indexOf ys x))"

text \<open>
  The variables that the closure \<open>dfs\<close> shares with its caller: the sets \<open>visited\<close>
  and \<open>recStack\<close>, the array \<open>path\<close> and the result \<open>circular\<close>.
\<close>

record dfs_state =
  visited :: "string set"
  recStack :: "string set"
  dpath :: "string list"
  circular :: "string list list"

text \<open>
  \<open>dfs(node)\<close> as a function of the state, and its loop over the neighbours. The boolean
  that the source returns is not modelled: no caller reads it.
\<close>

function dfs :: "(string \<times> string list) list \<Rightarrow> string \<Rightarrow> dfs_state \<Rightarrow> dfs_state"
  and dfsNeighbors ::
    "(string \<times> string list) list \<Rightarrow> string list \<Rightarrow> dfs_state \<Rightarrow> dfs_state"
where
  "dfs graph node s =
     (if node \<in> recStack s
      then (case indexOf (dpath s) node of
              None \<Rightarrow> s
            | Some cycleStart \<Rightarrow>
                s\<lparr>circular := circular s @ [drop cycleStart (dpath s) @ [node]]\<rparr>)
      else if node \<in> visited s then s
      else (let s1 = s\<lparr>visited := insert node (visited s),
                       recStack := insert node (recStack s),
                       dpath := dpath s @ [node]\<rparr>;
                s2 = dfsNeighbors graph (neighborsOf graph node) s1
            in s2\<lparr>dpath := butlast (dpath s2), recStack := recStack s2 - {node}\<rparr>))"
| "dfsNeighbors graph [] s = s"
| "dfsNeighbors graph (neighbor # neighbors) s =
     dfsNeighbors graph neighbors (dfs graph neighbor s)"
  by pat_completeness auto

text \<open>
  Termination: the search marks a node visited before it descends, and only the import
  strings of the graph can be reached below the first node.
\<close>

definition importTargets :: "(string \<times> string list) list \<Rightarrow> string set" where
  "importTargets graph = (\<Union>(k, ns)\<in>set graph. set ns)"

lemma finite_importTargets: "finite (importTargets graph)"
  by (auto simp add: importTargets_def)

lemma neighborsOf_importTargets: "set (neighborsOf graph node) \<subseteq> importTargets graph"
proof (cases "map_of graph node")
  case None
  then show ?thesis by (simp add: neighborsOf_def)
next
  case (Some ns)
  then have "(node, ns) \<in> set graph" by (rule map_of_SomeD)
  then have "set ns \<subseteq> importTargets graph"
    unfolding importTargets_def by blast
  with Some show ?thesis by (simp add: neighborsOf_def)
qed

lemma dfs_visited_mono_partial:
  "dfs_dfsNeighbors_dom (Inl (graph, node, s)) \<Longrightarrow> visited s \<subseteq> visited (dfs graph node s)"
  "dfs_dfsNeighbors_dom (Inr (graph, ns, s)) \<Longrightarrow> visited s \<subseteq> visited (dfsNeighbors graph ns s)"
proof (induct graph node s and graph ns s rule: dfs_dfsNeighbors.pinduct)
  case (1 graph node s)
  then show ?case
    by (auto simp add: dfs.psimps Let_def split: option.splits)
next
  case (2 graph s)
  then show ?case by (simp add: dfsNeighbors.psimps)
next
  case (3 graph neighbor neighbors s)
  then show ?case by (auto simp add: dfsNeighbors.psimps)
qed

definition dfs_measure ::
  "(string \<times> string list) list \<times> string \<times> dfs_state
     + (string \<times> string list) list \<times> string list \<times> dfs_state \<Rightarrow> nat \<times> nat" where
  "dfs_measure x =
     (case x of
        Inl (graph, node, s) \<Rightarrow> (card (insert node (importTargets graph) - visited s), 0)
      | Inr (graph, ns, s) \<Rightarrow>
          (card ((set ns \<union> importTargets graph) - visited s), length ns + 1))"

termination dfs
proof (relation "inv_image (less_than <*lex*> less_than) dfs_measure", goal_cases)
  case 1
  then show ?case by (intro wf_inv_image wf_lex_prod wf_less_than)
next
  case (2 graph node s s1)
  have "importTargets graph - insert node (visited s)
        \<subset> insert node (importTargets graph) - visited s"
    using 2 by auto
  then have "card (importTargets graph - insert node (visited s))
             < card (insert node (importTargets graph) - visited s)"
    by (intro psubset_card_mono) (auto simp add: finite_importTargets)
  moreover have "(set (neighborsOf graph node) \<union> importTargets graph)
                 = importTargets graph"
    using neighborsOf_importTargets by blast
  ultimately show ?case using 2 by (simp add: dfs_measure_def)
next
  case (3 graph neighbor neighbors s)
  have "card (insert neighbor (importTargets graph) - visited s)
        \<le> card ((set (neighbor # neighbors) \<union> importTargets graph) - visited s)"
    by (intro card_mono) (auto simp add: finite_importTargets)
  then show ?case by (auto simp add: dfs_measure_def)
next
  case (4 graph neighbor neighbors s)
  then have "visited s \<subseteq> visited (dfs graph neighbor s)"
    by (rule dfs_visited_mono_partial(1))
  then have "card ((set neighbors \<union> importTargets graph) - visited (dfs graph neighbor s))
        \<le> card ((set (neighbor # neighbors) \<union> importTargets graph) - visited s)"
    by (intro card_mono) (auto simp add: finite_importTargets)
  then show ?case by (auto simp add: dfs_measure_def)
qed

declare dfs.simps [simp del]

text \<open>
  \<open>detectCircularDependencies(nodes, edges)\<close>: a search from every node, in the order
  of \<open>nodes\<close>, that the searches before it did not visit.
\<close>

definition detectCircularDependencies :: "DependencyNode list \<Rightarrow> Edge list \<Rightarrow> string list list" where
  "detectCircularDependencies nodes edges =
     (let graph = buildAdjacency edges
      in circular
           (foldl (\<lambda>s node. if dn_path node \<notin> visited s then dfs graph (dn_path node) s else s)
              \<lparr>visited = {}, recStack = {}, dpath = [], circular = []\<rparr> nodes))"


subsection \<open>The world outside: file system, glob and parser\<close>

text \<open>
  The calls into Node's \<open>path\<close> and \<open>fs\<close> modules, the \<open>glob\<close> package and the
  tree-sitter parser are parameters of the model:
  \<^item> \<open>resolve p\<close> is \<open>path.resolve(p)\<close> and \<open>relative a b\<close> is \<open>path.relative(a, b)\<close>;
  \<^item> \<open>pathExists p\<close> is \<open>fs.pathExists(p)\<close>;
  \<^item> \<open>readFile p\<close> is \<open>fs.readFile(p, 'utf-8')\<close>, \<open>None\<close> when it throws;
  \<^item> \<open>glob pat dir\<close> is \<open>glob(pat, {cwd: dir, absolute: true, ignore: [...]})\<close> with
    the default ignore list of \<open>findFiles\<close>, \<open>None\<close> when it throws;
  \<^item> \<open>parseFile p\<close> is the tree of \<open>parseFile(p)\<close>, \<open>None\<close> when it is \<open>null\<close>;
  \<^item> \<open>extractImports t lang\<close> is \<open>extractImports(t, lang)\<close>, \<open>None\<close> when the walk
    over the tree throws;
  \<^item> \<open>unicodeLower s\<close> is \<open>s.toLowerCase()\<close> for a string that is not pure ASCII.
\<close>

record 'tree world =
  resolve :: "string \<Rightarrow> string"
  relative :: "string \<Rightarrow> string \<Rightarrow> string"
  pathExists :: "string \<Rightarrow> bool"
  readFile :: "string \<Rightarrow> string option"
  glob :: "string \<Rightarrow> string \<Rightarrow> string list option"
  parseFile :: "string \<Rightarrow> 'tree option"
  extractImports :: "'tree \<Rightarrow> string \<Rightarrow> string list option"
  unicodeLower :: "string \<Rightarrow> string"

text \<open>
  \<open>findFiles(directory, patterns)\<close>: the matches of each pattern in turn, then
  \<open>[...new Set(allFiles)]\<close>, which keeps the first occurrence of every path.
\<close>

fun globAll :: "'tree world \<Rightarrow> string \<Rightarrow> string list \<Rightarrow> string list option" where
  "globAll w directory [] = Some []"
| "globAll w directory (pat # patterns) =
     (case glob w pat directory of
        None \<Rightarrow> None
      | Some files \<Rightarrow> map_option (\<lambda>rest. files @ rest) (globAll w directory patterns))"

definition uniq :: "string list \<Rightarrow> string list" where
  "uniq xs = foldl (\<lambda>seen x. if x \<in> set seen then seen else seen @ [x]) [] xs"

definition findFiles :: "'tree world \<Rightarrow> string \<Rightarrow> string list \<Rightarrow> error + string list" where
  "findFiles w directory patterns =
     (case globAll w directory patterns of
        None \<Rightarrow> Inl FailedToFindFiles
      | Some allFiles \<Rightarrow> Inr (uniq allFiles))"

definition codeExtensions :: "string list" where
  "codeExtensions =
     [''*.js'', ''*.jsx'', ''*.ts'', ''*.tsx'', ''*.py'', ''*.java'', ''*.go'', ''*.rs'']"

subsection \<open>analyzeDependencies\<close>

definition detectLanguageFromPath :: "(string \<Rightarrow> string) \<Rightarrow> string \<Rightarrow> string" where
  "detectLanguageFromPath lower filePath =
     (case map_of [(''.js'', ''JavaScript''), (''.jsx'', ''JavaScript''),
                   (''.ts'', ''TypeScript''), (''.tsx'', ''TypeScript''),
                   (''.py'', ''Python''), (''.java'', ''Java''), (''.go'', ''Go''),
                   (''.rs'', ''Rust'')]
             (toLowerCase lower (extname filePath)) of
        None \<Rightarrow> ''Unknown''
      | Some l \<Rightarrow> l)"

text \<open>
  The body of the loop over \<open>filesToAnalyze\<close>: a file without a tree is skipped by
  \<open>continue\<close>, a file whose extraction throws by the \<open>catch\<close>; any other file adds
  one node and one edge per import.
\<close>

definition analyzeFile ::
  "'tree world \<Rightarrow> string \<Rightarrow> DependencyNode list \<times> Edge list \<Rightarrow> string
     \<Rightarrow> DependencyNode list \<times> Edge list" where
  "analyzeFile w absolutePath acc file =
     (case parseFile w file of
        None \<Rightarrow> acc
      | Some tree \<Rightarrow>
          (case extractImports w tree (detectLanguageFromPath (unicodeLower w) file) of
             None \<Rightarrow> acc
           | Some imports \<Rightarrow>
               (let relativePath = relative w absolutePath file;
                    node = \<lparr>dn_name = lastComponent file, dn_path = relativePath,
                            dn_imports = imports, dn_exports = [],
                            dn_dependencies = imports\<rparr>
                in (fst acc @ [node],
                    snd acc @ map (\<lambda>imp. \<lparr>e_from = relativePath, e_to = imp,
                                           e_type = ''import''\<rparr>) imports))))"

definition analyzeDependencies ::
  "'tree world \<Rightarrow> string \<Rightarrow> string option \<Rightarrow> error + DependencyGraph" where
  "analyzeDependencies w projectPath filePath =
     (let absolutePath = resolve w projectPath
      in if \<not> pathExists w absolutePath then Inl ProjectPathDoesNotExist
         else (case (if truthy filePath
                     then (let absoluteFilePath = resolve w (the filePath)
                           in if pathExists w absoluteFilePath then Inr [absoluteFilePath]
                              else Inr [])
                     else findFiles w absolutePath codeExtensions) of
                 Inl e \<Rightarrow> Inl e
               | Inr filesToAnalyze \<Rightarrow>
                   (let (nodes, edges) =
                          foldl (analyzeFile w absolutePath) ([], []) filesToAnalyze
                    in Inr \<lparr>dg_nodes = nodes, dg_edges = edges,
                            dg_circular = detectCircularDependencies nodes edges\<rparr>)))"

subsection \<open>A sample project with three files that import each other in a ring\<close>

text \<open>
  The project \<open>/ring\<close> holds \<open>a.js\<close>, \<open>b.js\<close> and \<open>c.js\<close>; the import of \<open>a.js\<close>
  is the string \<open>b.js\<close>, that of \<open>b.js\<close> is \<open>c.js\<close> and that of \<open>c.js\<close> is
  \<open>a.js\<close>. A tree is represented by the imports found in it. \<open>listing\<close> is the order
  in which \<open>glob\<close> enumerates the directory.
\<close>

definition ringWorld :: "string list \<Rightarrow> (string list) world" where
  "ringWorld listing =
     \<lparr>resolve = (\<lambda>p. p),
      relative = (\<lambda>a b. drop (length a + 1) b),
      pathExists = (\<lambda>p. p = ''/ring'' \<or> p \<in> set (map (\<lambda>f. ''/ring/'' @ f) listing)),
      readFile = (\<lambda>p. None),
      glob = (\<lambda>pat dir. if pat = ''*.js'' \<and> dir = ''/ring''
                          then Some (map (\<lambda>f. ''/ring/'' @ f) listing) else Some []),
      parseFile = (\<lambda>p. if p = ''/ring/a.js'' then Some [''b.js'']
                         else if p = ''/ring/b.js'' then Some [''c.js'']
                         else if p = ''/ring/c.js'' then Some [''a.js''] else None),
      extractImports = (\<lambda>t lang. Some t),
      unicodeLower = (\<lambda>s. s)\<rparr>"


subsection \<open>Lemmas on analyzeDependencies\<close>

text \<open>The edges that a list of nodes gives rise to: one per import, in order.\<close>

definition edgesOf :: "DependencyNode list \<Rightarrow> Edge list" where
  "edgesOf nodes =
     concat (map (\<lambda>n. map (\<lambda>imp. \<lparr>e_from = dn_path n, e_to = imp, e_type = ''import''\<rparr>)
                          (dn_imports n)) nodes)"

lemma analyzeFile_edgesOf:
  "snd acc = edgesOf (fst acc)
     \<Longrightarrow> snd (analyzeFile w absolutePath acc file)
         = edgesOf (fst (analyzeFile w absolutePath acc file))"
  by (simp add: analyzeFile_def edgesOf_def Let_def split: option.splits)

lemma foldl_analyzeFile_edgesOf:
  "snd acc = edgesOf (fst acc)
     \<Longrightarrow> snd (foldl (analyzeFile w absolutePath) acc files)
         = edgesOf (fst (foldl (analyzeFile w absolutePath) acc files))"
  by (induction files arbitrary: acc) (simp_all add: analyzeFile_edgesOf)

lemma analyzeFile_pair_edgesOf:
  "analyzeFile w absolutePath ([], []) f = (nodes, edges) \<Longrightarrow> edges = edgesOf nodes"
  using analyzeFile_edgesOf [of "([], [])" w absolutePath f]
  by (simp add: edgesOf_def)

lemma foldl_pair_edgesOf:
  "foldl (analyzeFile w absolutePath) ([], []) files = (nodes, edges)
     \<Longrightarrow> edges = edgesOf nodes"
  using foldl_analyzeFile_edgesOf [of "([], [])" w absolutePath files]
  by (simp add: edgesOf_def)

lemma analyzeDependencies_Inr:
  assumes "analyzeDependencies w projectPath filePath = Inr g"
  shows "dg_edges g = edgesOf (dg_nodes g)
         \<and> dg_circular g = detectCircularDependencies (dg_nodes g) (dg_edges g)"
  using assms unfolding analyzeDependencies_def Let_def
  by (auto split: if_splits sum.splits prod.splits
      dest: analyzeFile_pair_edgesOf foldl_pair_edgesOf simp add: edgesOf_def)

text \<open>
  The search from \<open>p\<close> in a graph where \<open>p\<close> imports \<open>q\<close>, \<open>q\<close> imports \<open>r\<close> and
  \<open>r\<close> imports \<open>p\<close>, call by call from the innermost.
\<close>

lemma ring_dfs:
  assumes ne: "p \<noteq> q" "q \<noteq> p" "p \<noteq> r" "r \<noteq> p" "q \<noteq> r" "r \<noteq> q"
    and nb: "neighborsOf graph p = [q]" "neighborsOf graph q = [r]"
      "neighborsOf graph r = [p]"
  shows "dfs graph p \<lparr>visited = {}, recStack = {}, dpath = [], circular = []\<rparr>
         = \<lparr>visited = {r, q, p}, recStack = {}, dpath = [], circular = [[p, q, r, p]]\<rparr>"
proof -
  have closing: "dfs graph p \<lparr>visited = {r, q, p}, recStack = {r, q, p}, dpath = [p, q, r],
                            circular = []\<rparr>
      = \<lparr>visited = {r, q, p}, recStack = {r, q, p}, dpath = [p, q, r],
         circular = [[p, q, r, p]]\<rparr>"
    by (subst dfs.simps) simp
  have third: "dfs graph r \<lparr>visited = {q, p}, recStack = {q, p}, dpath = [p, q],
                             circular = []\<rparr>
      = \<lparr>visited = {r, q, p}, recStack = {q, p}, dpath = [p, q],
         circular = [[p, q, r, p]]\<rparr>"
    using ne by (subst dfs.simps) (simp add: nb closing Let_def)
  have second: "dfs graph q \<lparr>visited = {p}, recStack = {p}, dpath = [p], circular = []\<rparr>
      = \<lparr>visited = {r, q, p}, recStack = {p}, dpath = [p], circular = [[p, q, r, p]]\<rparr>"
    using ne by (subst dfs.simps) (simp add: nb third Let_def)
  show ?thesis
    using ne by (subst dfs.simps) (simp add: nb second Let_def)
qed

lemma ring_search:
  assumes ne: "p \<noteq> q" "q \<noteq> p" "p \<noteq> r" "r \<noteq> p" "q \<noteq> r" "r \<noteq> q"
    and nodes: "map dn_path nodes = [p, q, r] \<or> map dn_path nodes = [p, r, q]"
    and edges: "map (\<lambda>e. (e_from e, e_to e)) edges = [(p, q), (q, r), (r, p)]
                \<or> map (\<lambda>e. (e_from e, e_to e)) edges = [(p, q), (r, p), (q, r)]"
  shows "detectCircularDependencies nodes edges = [[p, q, r, p]]"
proof -
  from nodes obtain n1 n2 n3 where n: "nodes = [n1, n2, n3]" "dn_path n1 = p"
    "dn_path n2 = q \<or> dn_path n2 = r" "dn_path n3 = r \<or> dn_path n3 = q"
    by (auto simp add: map_eq_Cons_conv)
  from edges obtain e1 e2 e3 where e: "edges = [e1, e2, e3]" "e_from e1 = p" "e_to e1 = q"
    "(e_from e2 = q \<and> e_to e2 = r \<and> e_from e3 = r \<and> e_to e3 = p)
     \<or> (e_from e2 = r \<and> e_to e2 = p \<and> e_from e3 = q \<and> e_to e3 = r)"
    by (auto simp add: map_eq_Cons_conv)
  have graph: "buildAdjacency edges = [(p, [q]), (q, [r]), (r, [p])]
               \<or> buildAdjacency edges = [(p, [q]), (r, [p]), (q, [r])]"
    using e ne by (auto simp add: buildAdjacency_def addEdge_def Let_def)
  have nb: "neighborsOf (buildAdjacency edges) p = [q]"
    "neighborsOf (buildAdjacency edges) q = [r]"
    "neighborsOf (buildAdjacency edges) r = [p]"
    using graph ne by (auto simp add: neighborsOf_def)
  note search = ring_dfs [OF ne nb]
  have second: "dn_path n2 \<in> {r, q, p}" and third: "dn_path n3 \<in> {r, q, p}"
    using n by auto
  show ?thesis
    unfolding detectCircularDependencies_def Let_def n(1)
    using second third by (auto simp add: n(2) search)
qed


lemma edgesOf_pairs:
  "map (\<lambda>e. (e_from e, e_to e)) (edgesOf nodes)
   = concat (map (\<lambda>(k, imports). map (Pair k) imports)
               (map (\<lambda>n. (dn_path n, dn_imports n)) nodes))"
  by (induction nodes) (simp_all add: edgesOf_def comp_def)

lemma detectCircularDependencies_Nil: "detectCircularDependencies [] [] = []"
  by (simp add: detectCircularDependencies_def)

subsection \<open>Claims about analyzeDependencies\<close>

text \<open>
  C2 (as the code has it). When the analyzed files are three files that import each
  other in a ring by strings equal to the node keys, \<open>p\<close> importing \<open>q\<close>, \<open>q\<close>
  importing \<open>r\<close> and \<open>r\<close> importing \<open>p\<close>, and \<open>p\<close> is the file enumerated first (the
  other two in either order), then \<open>circular\<close> holds exactly one cycle, the search path
  from \<open>p\<close> closed by \<open>p\<close>: \<open>[p, q, r, p]\<close>. For \<open>a.js \<rightarrow> b.js \<rightarrow> c.js \<rightarrow> a.js\<close> this is
  \<open>[a.js, b.js, c.js, a.js]\<close> when \<open>a.js\<close> is enumerated first, \<open>[b.js, c.js, a.js,
  b.js]\<close> when \<open>b.js\<close> is, and \<open>[c.js, a.js, b.js, c.js]\<close> when \<open>c.js\<close> is.
\<close>

theorem ring_of_three_files_one_cycle:
  assumes "analyzeDependencies w projectPath filePath = Inr g"
    and "distinct [p, q, r]"
    and "map (\<lambda>n. (dn_path n, dn_imports n)) (dg_nodes g) = [(p, [q]), (q, [r]), (r, [p])]
         \<or> map (\<lambda>n. (dn_path n, dn_imports n)) (dg_nodes g)
             = [(p, [q]), (r, [p]), (q, [r])]"
  shows "dg_circular g = [[p, q, r, p]]"
proof -
  from analyzeDependencies_Inr [OF assms(1)] have
    edges: "dg_edges g = edgesOf (dg_nodes g)"
    and circ: "dg_circular g = detectCircularDependencies (dg_nodes g) (dg_edges g)"
    by blast+
  from assms(2) have ne: "p \<noteq> q" "q \<noteq> p" "p \<noteq> r" "r \<noteq> p" "q \<noteq> r" "r \<noteq> q"
    by auto
  have paths: "map dn_path (dg_nodes g)
               = map fst (map (\<lambda>n. (dn_path n, dn_imports n)) (dg_nodes g))"
    by (simp add: comp_def)
  from assms(3) have nodes:
    "map dn_path (dg_nodes g) = [p, q, r] \<or> map dn_path (dg_nodes g) = [p, r, q]"
    unfolding paths by auto
  from assms(3) have pairs:
    "map (\<lambda>e. (e_from e, e_to e)) (dg_edges g) = [(p, q), (q, r), (r, p)]
     \<or> map (\<lambda>e. (e_from e, e_to e)) (dg_edges g) = [(p, q), (r, p), (q, r)]"
    unfolding edges edgesOf_pairs by auto
  from ring_search [OF ne nodes pairs] circ show ?thesis by simp
qed

theorem ring_of_three_files_one_cycle_witness:
  "\<exists>g. analyzeDependencies (ringWorld [''a.js'', ''b.js'', ''c.js'']) ''/ring'' None = Inr g
       \<and> map (\<lambda>n. (dn_path n, dn_imports n)) (dg_nodes g)
           = [(''a.js'', [''b.js'']), (''b.js'', [''c.js'']), (''c.js'', [''a.js''])]
       \<and> dg_circular g = [[''a.js'', ''b.js'', ''c.js'', ''a.js'']]"
proof -
  define g where "g = projr (analyzeDependencies (ringWorld [''a.js'', ''b.js'', ''c.js''])
                               ''/ring'' None)"
  have run: "analyzeDependencies (ringWorld [''a.js'', ''b.js'', ''c.js'']) ''/ring'' None
             = Inr g"
    unfolding g_def by code_simp
  have nodes: "map (\<lambda>n. (dn_path n, dn_imports n)) (dg_nodes g)
               = [(''a.js'', [''b.js'']), (''b.js'', [''c.js'']), (''c.js'', [''a.js''])]"
    unfolding g_def by code_simp
  have names: "distinct [''a.js'', ''b.js'', ''c.js'']"
    by simp
  have "dg_circular g = [[''a.js'', ''b.js'', ''c.js'', ''a.js'']]"
    by (rule ring_of_three_files_one_cycle [OF run names disjI1 [OF nodes]])
  with run nodes show ?thesis
    by (intro exI [of _ g] conjI)
qed

text \<open>
  C2 as stated fails: when the directory listing enumerates \<open>b.js\<close> first, the search
  starts at \<open>b.js\<close> and the one cycle found is \<open>[b.js, c.js, a.js, b.js]\<close>.
\<close>

theorem ring_enumerated_from_b_counterexample:
  "map_sum id (\<lambda>g. (map dn_path (dg_nodes g),
                      map (\<lambda>e. (e_from e, e_to e)) (dg_edges g),
                      dg_circular g))
     (analyzeDependencies (ringWorld [''b.js'', ''a.js'', ''c.js'']) ''/ring'' None)
   = Inr ([''b.js'', ''a.js'', ''c.js''],
          [(''b.js'', ''c.js''), (''a.js'', ''b.js''), (''c.js'', ''a.js'')],
          [[''b.js'', ''c.js'', ''a.js'', ''b.js'']])"
  by code_simp

text \<open>
  C3 (as the code has it). The call fails with \<open>Project path does not exist\<close> when the
  root path does not exist. When the root exists and a file argument is given whose
  file does not exist, the call does not fail: no file is analyzed and the empty graph
  is returned.
\<close>

theorem analyzeDependencies_missing_paths:
  "(\<not> pathExists w (resolve w projectPath)
      \<longrightarrow> analyzeDependencies w projectPath filePath = Inl ProjectPathDoesNotExist)
   \<and> (pathExists w (resolve w projectPath) \<and> truthy filePath
       \<and> \<not> pathExists w (resolve w (the filePath))
      \<longrightarrow> analyzeDependencies w projectPath filePath
            = Inr \<lparr>dg_nodes = [], dg_edges = [], dg_circular = []\<rparr>)"
  by (simp add: analyzeDependencies_def Let_def detectCircularDependencies_Nil)

theorem analyzeDependencies_missing_paths_witness:
  "\<not> pathExists (ringWorld [''a.js'']) (resolve (ringWorld [''a.js'']) ''/nowhere'')
   \<and> analyzeDependencies (ringWorld [''a.js'']) ''/nowhere'' (Some ''/ring/a.js'')
       = Inl ProjectPathDoesNotExist
   \<and> pathExists (ringWorld [''a.js'']) (resolve (ringWorld [''a.js'']) ''/ring'')
   \<and> \<not> pathExists (ringWorld [''a.js'']) (resolve (ringWorld [''a.js'']) ''/ring/zzz.js'')
   \<and> analyzeDependencies (ringWorld [''a.js'']) ''/ring'' (Some ''/ring/zzz.js'')
       = Inr \<lparr>dg_nodes = [], dg_edges = [], dg_circular = []\<rparr>"
proof -
  have gone: "\<not> pathExists (ringWorld [''a.js'']) (resolve (ringWorld [''a.js'']) ''/nowhere'')"
    by (simp add: ringWorld_def)
  have there: "pathExists (ringWorld [''a.js'']) (resolve (ringWorld [''a.js'']) ''/ring'')"
    by (simp add: ringWorld_def)
  have nofile: "\<not> pathExists (ringWorld [''a.js''])
                    (resolve (ringWorld [''a.js'']) (the (Some ''/ring/zzz.js'')))"
    by (simp add: ringWorld_def)
  from analyzeDependencies_missing_paths
         [of "ringWorld [''a.js'']" "''/nowhere''" "Some ''/ring/a.js''"]
       analyzeDependencies_missing_paths
         [of "ringWorld [''a.js'']" "''/ring''" "Some ''/ring/zzz.js''"]
       gone there nofile
  show ?thesis by simp
qed

text \<open>
  C3 as stated fails: with the root \<open>/ring\<close> present and the file argument
  \<open>/ring/zzz.js\<close> absent, the call returns the empty graph.
\<close>

theorem missing_file_argument_counterexample:
  "pathExists (ringWorld [''a.js'', ''b.js'', ''c.js'']) ''/ring''
   \<and> \<not> pathExists (ringWorld [''a.js'', ''b.js'', ''c.js'']) ''/ring/zzz.js''
   \<and> analyzeDependencies (ringWorld [''a.js'', ''b.js'', ''c.js'']) ''/ring''
         (Some ''/ring/zzz.js'')
       = Inr \<lparr>dg_nodes = [], dg_edges = [], dg_circular = []\<rparr>"
  by (simp add: analyzeDependencies_def Let_def detectCircularDependencies_Nil ringWorld_def)

section \<open>Test coverage by file names and the Large File smell (CodeAnalyzer)\<close>

subsection \<open>analyzeTestCoverage\<close>

definition testPatterns :: "string list" where
  "testPatterns =
     [''*.test.js'', ''*.test.ts'', ''*.spec.js'', ''*.spec.ts'', ''*_test.py'',
      ''*Test.java'', ''*_test.go'', ''*_test.rs'']"

text \<open>
  \<open>s.replace(re, '')\<close> for a regex that is one alternative of literal suffixes anchored
  by \<open>$\<close>: the suffix that matches is removed. In each of the four regexes below at
  most one alternative can match at the end of a string, so the order of the list does
  not matter.
\<close>

definition stripSuffix :: "string list \<Rightarrow> string \<Rightarrow> string" where
  "stripSuffix suffixes s =
     (case find (endsWith s) suffixes of None \<Rightarrow> s | Some suffix \<Rightarrow> dropSuffix s suffix)"

text \<open>
  \<open>f.replace(/\.(test|spec)\.(js|ts)$/, '').replace(/_test\.(py|go|rs)$/, '')
     .replace(/Test\.java$/, '')\<close>
\<close>

definition testBase :: "string \<Rightarrow> string" where
  "testBase f =
     stripSuffix [''Test.java'']
       (stripSuffix [''_test.py'', ''_test.go'', ''_test.rs'']
          (stripSuffix [''.test.js'', ''.test.ts'', ''.spec.js'', ''.spec.ts''] f))"

text \<open>\<open>file.replace(/\.(js|ts|jsx|tsx|py|java|go|rs)$/, '')\<close>\<close>

definition sourceBase :: "string \<Rightarrow> string" where
  "sourceBase f =
     stripSuffix [''.js'', ''.ts'', ''.jsx'', ''.tsx'', ''.py'', ''.java'', ''.go'', ''.rs''] f"

text \<open>The test of the loop for "a test file itself".\<close>

definition isTestPath :: "string \<Rightarrow> bool" where
  "isTestPath f =
     (str_includes f ''.test.'' \<or> str_includes f ''.spec.'' \<or> str_includes f ''_test''
      \<or> str_includes f ''Test.java'')"

record FileCoverage =
  fc_file :: string
  fc_coverage :: nat

record TestCoverage =
  tc_total :: nat
  tc_covered :: nat
  tc_percentage :: rat
  tc_files :: "FileCoverage list"
  tc_missing :: "string list"

text \<open>
  The body of \<open>for (const file of codeFiles)\<close> on the pair
  \<open>(coveredFiles, missingFiles)\<close>; \<open>testFileMap\<close> is the set of the test bases.
\<close>

definition coverageStep ::
  "string set \<Rightarrow> string list \<times> string list \<Rightarrow> string \<Rightarrow> string list \<times> string list" where
  "coverageStep testFileMap acc f =
     (if sourceBase f \<in> testFileMap then (fst acc @ [f], snd acc)
      else if \<not> isTestPath f then (fst acc, snd acc @ [f])
      else acc)"

text \<open>
  \<open>analyzeTestCoverage(projectPath)\<close>; the percentage \<open>(covered / total) * 100\<close> is
  computed in numbers, like the percentage of a language.
\<close>

definition analyzeTestCoverage :: "'tree world \<Rightarrow> string \<Rightarrow> error + TestCoverage" where
  "analyzeTestCoverage w projectPath =
     (case findFiles w projectPath codeExtensions of
        Inl e \<Rightarrow> Inl e
      | Inr codeFiles \<Rightarrow>
          (case findFiles w projectPath testPatterns of
             Inl e \<Rightarrow> Inl e
           | Inr testFiles \<Rightarrow>
               (let testFileMap = set (map testBase testFiles);
                    (coveredFiles, missingFiles) =
                       foldl (coverageStep testFileMap) ([], []) codeFiles;
                    total = length codeFiles;
                    covered = length coveredFiles
                in Inr \<lparr>tc_total = total, tc_covered = covered,
                        tc_percentage =
                          (if total > 0
                           then fmul (fdiv (of_nat covered) (of_nat total)) 100 else 0),
                        tc_files =
                          map (\<lambda>f. \<lparr>fc_file = f,
                                      fc_coverage =
                                        (if sourceBase f \<in> testFileMap then 100 else 0)\<rparr>)
                            codeFiles,
                        tc_missing = missingFiles\<rparr>)))"

subsection \<open>detectCodeSmells\<close>






subsection \<open>Function starts (isFunctionStart)\<close>














subsection \<open>The sections for long methods, magic numbers and duplicate code\<close>



















subsection \<open>Large files, and the loop over the files\<close>




subsection \<open>A sample project with a tested file, its test and a large untested file\<close>

definition coverageWorld :: "unit world" where
  "coverageWorld =
     \<lparr>resolve = (\<lambda>p. p),
      relative = (\<lambda>a b. drop (length a + 1) b),
      pathExists = (\<lambda>p. p \<in> {''/app'', ''/app/foo.js'', ''/app/foo.test.js'', ''/app/big.js''}),
      readFile = (\<lambda>p. if p = ''/app/big.js'' then Some (replicate 599 newline)
                        else if p = ''/app/foo.js'' \<or> p = ''/app/foo.test.js''
                        then Some ''run();'' else None),
      glob = (\<lambda>pat dir.
                if dir = ''/app'' \<and> pat = ''*.js''
                then Some [''/app/big.js'', ''/app/foo.js'', ''/app/foo.test.js'']
                else if dir = ''/app'' \<and> pat = ''*.test.js'' then Some [''/app/foo.test.js'']
                else Some []),
      parseFile = (\<lambda>p. None),
      extractImports = (\<lambda>t lang. Some []),
      unicodeLower = (\<lambda>s. s)\<rparr>"


subsection \<open>Lemmas on coverage and smells\<close>

lemma foldl_coverageStep:
  "foldl (coverageStep T) (c, m) fs
   = (c @ filter (\<lambda>f. sourceBase f \<in> T) fs,
      m @ filter (\<lambda>f. sourceBase f \<notin> T \<and> \<not> isTestPath f) fs)"
  by (induction fs arbitrary: c m) (auto simp add: coverageStep_def)

lemma analyzeTestCoverage_Inr:
  assumes "findFiles w projectPath codeExtensions = Inr codeFiles"
    and "findFiles w projectPath testPatterns = Inr testFiles"
  shows "analyzeTestCoverage w projectPath
         = Inr \<lparr>tc_total = length codeFiles,
                 tc_covered =
                   length (filter (\<lambda>f. sourceBase f \<in> testBase ` set testFiles) codeFiles),
                 tc_percentage =
                   (if length codeFiles > 0
                    then fmul (fdiv (of_nat (length (filter
                                       (\<lambda>f. sourceBase f \<in> testBase ` set testFiles) codeFiles)))
                                    (of_nat (length codeFiles))) 100
                    else 0),
                 tc_files =
                   map (\<lambda>f. \<lparr>fc_file = f,
                               fc_coverage =
                                 (if sourceBase f \<in> testBase ` set testFiles then 100 else 0)\<rparr>)
                     codeFiles,
                 tc_missing =
                   filter (\<lambda>f. sourceBase f \<notin> testBase ` set testFiles \<and> \<not> isTestPath f)
                     codeFiles\<rparr>"
  using assms by (simp add: analyzeTestCoverage_def Let_def foldl_coverageStep)

lemma analyzeTestCoverage_code_files:
  assumes "analyzeTestCoverage w projectPath = Inr r"
  shows "\<exists>codeFiles testFiles. findFiles w projectPath codeExtensions = Inr codeFiles
           \<and> findFiles w projectPath testPatterns = Inr testFiles"
  using assms by (auto simp add: analyzeTestCoverage_def split: sum.splits)





lemma coverageWorld_files:
  "findFiles coverageWorld ''/app'' codeExtensions
   = Inr [''/app/big.js'', ''/app/foo.js'', ''/app/foo.test.js'']"
  "findFiles coverageWorld ''/app'' testPatterns = Inr [''/app/foo.test.js'']"
  by (simp_all add: findFiles_def codeExtensions_def testPatterns_def coverageWorld_def
      uniq_def)




subsection \<open>Claims about analyzeTestCoverage and the Large File smell\<close>




text \<open>
  C10. In every result, \<open>covered\<close> is at most \<open>total\<close>; the percentage is the number
  \<open>(covered / total) * 100\<close> when \<open>total\<close> is positive and 0 otherwise; it differs
  from the exact quotient by the rounding of the two operations at most, and it lies
  between 0 and 100; no path in \<open>missing\<close> contains \<open>.test.\<close>, \<open>.spec.\<close>, \<open>_test\<close>
  or \<open>Test.java\<close>; and \<open>total\<close> is the number of all code files found, test files
  among them.
\<close>

theorem coverage_result_invariants:
  assumes "findFiles w projectPath codeExtensions = Inr codeFiles"
    and "analyzeTestCoverage w projectPath = Inr r"
  shows "tc_covered r \<le> tc_total r
         \<and> tc_percentage r
             = (if tc_total r > 0
                then fmul (fdiv (of_nat (tc_covered r)) (of_nat (tc_total r))) 100 else 0)
         \<and> (tc_total r > 0
              \<longrightarrow> \<bar>tc_percentage r - of_nat (tc_covered r) / of_nat (tc_total r) * 100\<bar>
                    \<le> of_nat (tc_covered r) / of_nat (tc_total r) * 100
                       * (2 / 2 ^ 53 + 1 / 2 ^ 106))
         \<and> 0 \<le> tc_percentage r \<and> tc_percentage r \<le> 100
         \<and> (\<forall>f\<in>set (tc_missing r).
                \<not> str_includes f ''.test.'' \<and> \<not> str_includes f ''.spec.''
                \<and> \<not> str_includes f ''_test'' \<and> \<not> str_includes f ''Test.java'')
         \<and> tc_total r = length codeFiles"
proof -
  from analyzeTestCoverage_code_files [OF assms(2)] assms(1) obtain testFiles where
    tests: "findFiles w projectPath testPatterns = Inr testFiles"
    by auto
  let ?covered = "\<lambda>f. sourceBase f \<in> testBase ` set testFiles"
  from analyzeTestCoverage_Inr [OF assms(1) tests] assms(2) have
    total: "tc_total r = length codeFiles"
    and covered: "tc_covered r = length (filter ?covered codeFiles)"
    and pct: "tc_percentage r
              = (if length codeFiles > 0
                 then fmul (fdiv (of_nat (length (filter ?covered codeFiles)))
                                 (of_nat (length codeFiles))) 100
                 else 0)"
    and missing: "tc_missing r = filter (\<lambda>f. \<not> ?covered f \<and> \<not> isTestPath f) codeFiles"
    by auto
  have le: "tc_covered r \<le> tc_total r"
    unfolding total covered by (rule length_filter_le)
  have eq: "tc_percentage r
            = (if tc_total r > 0
               then fmul (fdiv (of_nat (tc_covered r)) (of_nat (tc_total r))) 100 else 0)"
    unfolding pct total covered by simp
  have near: "\<bar>tc_percentage r - of_nat (tc_covered r) / of_nat (tc_total r) * 100\<bar>
              \<le> of_nat (tc_covered r) / of_nat (tc_total r) * 100
                 * (2 / 2 ^ 53 + 1 / 2 ^ 106)"
    if "tc_total r > 0"
    using that percentage_error [of "tc_covered r" "tc_total r"] unfolding eq by simp
  have lower: "0 \<le> tc_percentage r"
    unfolding eq by (simp add: fmul_def fdiv_def roundDouble_nonneg)
  have upper: "tc_percentage r \<le> 100"
  proof (cases "tc_total r > 0")
    case True
    with percentage_le_100 [OF le] show ?thesis
      unfolding eq by simp
  next
    case False
    then show ?thesis unfolding eq by simp
  qed
  have nomark: "\<forall>f\<in>set (tc_missing r).
                  \<not> str_includes f ''.test.'' \<and> \<not> str_includes f ''.spec.''
                  \<and> \<not> str_includes f ''_test'' \<and> \<not> str_includes f ''Test.java''"
    unfolding missing by (simp add: isTestPath_def)
  from le eq near lower upper nomark total show ?thesis by blast
qed

theorem coverage_result_invariants_witness:
  "\<exists>r. analyzeTestCoverage coverageWorld ''/app'' = Inr r
       \<and> tc_total r = 3 \<and> tc_covered r = 1 \<and> tc_covered r \<le> tc_total r
       \<and> tc_percentage r = fmul (fdiv 1 3) 100
       \<and> tc_percentage r = 2345624805922133 / 70368744177664
       \<and> \<bar>tc_percentage r - 1 / 3 * 100\<bar> \<le> 1 / 3 * 100 * (2 / 2 ^ 53 + 1 / 2 ^ 106)
       \<and> 0 \<le> tc_percentage r \<and> tc_percentage r \<le> 100
       \<and> ''/app/foo.test.js'' \<notin> set (tc_missing r)"
proof -
  note files = coverageWorld_files
  from analyzeTestCoverage_Inr [OF files] obtain r where
    run: "analyzeTestCoverage coverageWorld ''/app'' = Inr r"
    by blast
  note inst = coverage_result_invariants [OF files(1) run]
  from inst have total: "tc_total r = 3" by simp
  from analyzeTestCoverage_Inr [OF files] run have covered: "tc_covered r = 1"
    by (auto simp add: testBase_def sourceBase_def stripSuffix_def endsWith_def dropSuffix_def)
  have third: "fmul (fdiv 1 3) 100 = 2345624805922133 / 70368744177664"
    by code_simp
  have marker: "str_includes ''/app/foo.test.js'' ''.test.''"
    by simp
  from inst marker have absent: "''/app/foo.test.js'' \<notin> set (tc_missing r)"
    by blast
  from inst total covered third absent run show ?thesis
    by (intro exI [of _ r]) simp
qed

end
